theory Spec2Isabelle
  imports Complex_Main "HOL-Library.Char_ord" "HOL-Library.List_Lexorder" "HOL-Library.Word"
begin

section \<open>Evidence link validation: \<^verbatim>\<open>scripts/validate-evidence-links.py\<close>\<close>

text \<open>
  The script reads the evidence URLs of a rules dataset, probes each unique URL with a
  HEAD request (and a GET request where needed), retries transient failures with a linear
  backoff, and prints a report. This theory embeds its functions and proves the properties
  the specification states about them.

  Conventions of the embedding.
  \<^item> A Python \<^verbatim>\<open>str\<close> is a \<^typ>\<open>string\<close>: a list of 8-bit characters read as the code
    points U+0000 to U+00FF. Whitespace and case are those of Python on this range.
  \<^item> \<^verbatim>\<open>bytes\<close> are lists of 8-bit words.
  \<^item> Seconds (\<^verbatim>\<open>timeout\<close>, \<^verbatim>\<open>retry_delay\<close>) are reals; the script only passes them on and
    multiplies a delay by an attempt number.
  \<^item> The network, the codec registry and \<^verbatim>\<open>urllib.parse.urlparse\<close> are not part of the
    script; they are parameters of the functions that use them.
  \<^item> Effects (requests, sleeps, printed lines) are appended to an explicit trace.
\<close>

subsection \<open>Text primitives of Python\<close>

text \<open>\<^verbatim>\<open>str.isspace\<close> on U+0000..U+00FF; also the class \<^verbatim>\<open>\s\<close> of \<^verbatim>\<open>re\<close> on \<^verbatim>\<open>str\<close> patterns.\<close>

definition is_space :: "char \<Rightarrow> bool" where
  "is_space c = (of_char c \<in> {9, 10, 11, 12, 13, 28, 29, 30, 31, 32, 133, 160 :: nat})"

text \<open>The upper-case letters of U+0000..U+00FF: A-Z and U+00C0..U+00DE without U+00D7.\<close>

definition is_upper :: "char \<Rightarrow> bool" where
  "is_upper c =
     (let n = of_char c :: nat
      in (65 \<le> n \<and> n \<le> 90) \<or> (192 \<le> n \<and> n \<le> 222 \<and> n \<noteq> 215))"

text \<open>Lower-casing adds 32 to an upper-case letter, that is, sets bit 5 (which is clear).\<close>

definition lower_char :: "char \<Rightarrow> char" where
  "lower_char c =
     (if is_upper c
      then (case c of Char b0 b1 b2 b3 b4 b5 b6 b7 \<Rightarrow> Char b0 b1 b2 b3 b4 True b6 b7)
      else c)"

text \<open>\<^verbatim>\<open>str.lower()\<close>\<close>

definition lower :: "string \<Rightarrow> string" where
  "lower s = map lower_char s"

text \<open>\<^verbatim>\<open>str.strip()\<close> and \<^verbatim>\<open>str.strip(chars)\<close>\<close>

definition strip :: "string \<Rightarrow> string" where
  "strip s = rev (dropWhile is_space (rev (dropWhile is_space s)))"

definition strip_chars :: "string \<Rightarrow> string \<Rightarrow> string" where
  "strip_chars chars s =
     rev (dropWhile (\<lambda>c. c \<in> set chars) (rev (dropWhile (\<lambda>c. c \<in> set chars) s)))"

text \<open>\<^verbatim>\<open>needle in hay\<close> on strings\<close>

fun starts_with :: "string \<Rightarrow> string \<Rightarrow> bool" where
  "starts_with [] s = True"
| "starts_with (p # ps) [] = False"
| "starts_with (p # ps) (c # cs) = (p = c \<and> starts_with ps cs)"

fun contains :: "string \<Rightarrow> string \<Rightarrow> bool" where
  "contains needle [] = (needle = [])"
| "contains needle (c # cs) = (starts_with needle (c # cs) \<or> contains needle cs)"

text \<open>\<^verbatim>\<open>str(n)\<close> for an integer: decimal digits, with a minus sign when negative.\<close>

definition digit_char :: "nat \<Rightarrow> char" where
  "digit_char d = ''0123456789'' ! d"

function str_nat :: "nat \<Rightarrow> string" where
  "str_nat n = (if n < 10 then [digit_char n] else str_nat (n div 10) @ [digit_char (n mod 10)])"
  by pat_completeness auto
termination
  by (relation "measure id") auto

definition str_int :: "int \<Rightarrow> string" where
  "str_int i = (if i < 0 then CHR ''-'' # str_nat (nat (- i)) else str_nat (nat i))"

subsection \<open>Regular expressions with the backtracking order of \<^verbatim>\<open>re\<close>\<close>

text \<open>
  The fragment the script's patterns use: a character class, the empty pattern, sequence,
  alternation (left first), the greedy star and the lazy star. \<open>rmatch r s\<close> lists, in the
  order in which the backtracking matcher tries them, the rests of \<open>s\<close> after a match of
  \<open>r\<close> at the start of \<open>s\<close>. An iteration of a star that consumes nothing ends the
  repetition.
\<close>

datatype re = Chr "char \<Rightarrow> bool" | Eps | Seq re re | Alt re re | Star re | LazyStar re

function rmatch :: "re \<Rightarrow> string \<Rightarrow> string list" where
  "rmatch (Chr p) s = (case s of [] \<Rightarrow> [] | c # cs \<Rightarrow> if p c then [cs] else [])"
| "rmatch Eps s = [s]"
| "rmatch (Seq a b) s = concat (map (rmatch b) (rmatch a s))"
| "rmatch (Alt a b) s = rmatch a s @ rmatch b s"
| "rmatch (Star a) s =
     concat (map (\<lambda>t. if length t < length s then rmatch (Star a) t else []) (rmatch a s)) @ [s]"
| "rmatch (LazyStar a) s =
     s # concat (map (\<lambda>t. if length t < length s then rmatch (LazyStar a) t else []) (rmatch a s))"
  by pat_completeness auto
termination
  by (relation "measures [\<lambda>(r, s). size r, \<lambda>(r, s). length s]") auto

text \<open>\<^verbatim>\<open>r+\<close> and \<^verbatim>\<open>r?\<close> (both greedy)\<close>

definition Plus :: "re \<Rightarrow> re" where
  "Plus r = Seq r (Star r)"

definition Opt :: "re \<Rightarrow> re" where
  "Opt r = Alt r Eps"

text \<open>A literal character, and one under \<^verbatim>\<open>re.IGNORECASE\<close>.\<close>

definition chr :: "char \<Rightarrow> re" where
  "chr c = Chr (\<lambda>x. x = c)"

definition ci :: "char \<Rightarrow> re" where
  "ci c = Chr (\<lambda>x. lower_char x = lower_char c)"

fun lit_ci :: "string \<Rightarrow> re" where
  "lit_ci [] = Eps"
| "lit_ci (c # cs) = Seq (ci c) (lit_ci cs)"

text \<open>\<^verbatim>\<open>[^>]\<close>, \<^verbatim>\<open>\s\<close>, \<^verbatim>\<open>.\<close> under \<^verbatim>\<open>re.DOTALL\<close>, and \<^verbatim>\<open>[^\s;]\<close>\<close>

definition not_gt :: re where
  "not_gt = Chr (\<lambda>x. x \<noteq> CHR ''>'')"

definition ws :: re where
  "ws = Chr is_space"

definition any_char :: re where
  "any_char = Chr (\<lambda>x. True)"

definition not_space_semi :: re where
  "not_space_semi = Chr (\<lambda>x. \<not> is_space x \<and> x \<noteq> CHR '';'')"

text \<open>
  \<^verbatim>\<open>pattern.search(s)\<close>: the leftmost start at which the pattern matches, and there the
  first match in backtracking order. The result is the rest of \<open>s\<close> after the match.
\<close>

fun re_search :: "re \<Rightarrow> string \<Rightarrow> string option" where
  "re_search r [] = (case rmatch r [] of [] \<Rightarrow> None | t # ts \<Rightarrow> Some t)"
| "re_search r (c # cs) =
     (case rmatch r (c # cs) of [] \<Rightarrow> re_search r cs | t # ts \<Rightarrow> Some t)"

text \<open>
  A pattern with one group is kept as three parts: what stands before the group, the
  group, and what stands after it.
  \<open>match_group\<close> lists, for the matches at the start of \<open>s\<close> in backtracking order, the
  group text and the rest after the match; \<open>re_search_group\<close> is \<^verbatim>\<open>pattern.search(s).group(1)\<close>, and \<open>None\<close> without a match.
\<close>

type_synonym grouped_re = "re \<times> re \<times> re"

definition match_group :: "grouped_re \<Rightarrow> string \<Rightarrow> (string \<times> string) list" where
  "match_group g s =
     (case g of (pre, grp, post) \<Rightarrow>
        concat (map (\<lambda>t. concat (map (\<lambda>u. map (\<lambda>v. (take (length t - length u) t, v))
                                                (rmatch post u))
                                       (rmatch grp t)))
                    (rmatch pre s)))"

fun re_search_group :: "grouped_re \<Rightarrow> string \<Rightarrow> string option" where
  "re_search_group g [] = (case match_group g [] of [] \<Rightarrow> None | x # xs \<Rightarrow> Some (fst x))"
| "re_search_group g (c # cs) =
     (case match_group g (c # cs) of [] \<Rightarrow> re_search_group g cs | x # xs \<Rightarrow> Some (fst x))"

text \<open>
  \<^verbatim>\<open>pattern.sub(rep, s)\<close> for a pattern that never matches the empty string (both patterns
  the script substitutes are of this kind): every leftmost non-overlapping match is
  replaced by \<open>rep\<close>.
\<close>

function re_sub :: "re \<Rightarrow> string \<Rightarrow> string \<Rightarrow> string" where
  "re_sub r rep [] = []"
| "re_sub r rep (c # cs) =
     (case rmatch r (c # cs) of
        [] \<Rightarrow> c # re_sub r rep cs
      | t # ts \<Rightarrow> if length t < length (c # cs) then rep @ re_sub r rep t
                 else c # re_sub r rep cs)"
  by pat_completeness auto
termination
  by (relation "measure (\<lambda>(r, rep, s). length s)") auto

text \<open>
  The language of a pattern: the strings it can match as a whole. The matcher is sound and
  complete for it (lemma \<open>rmatch_lang\<close> below).
\<close>

fun lang :: "re \<Rightarrow> string set" where
  "lang (Chr p) = {[c] | c. p c}"
| "lang Eps = {[]}"
| "lang (Seq a b) = {u @ v | u v. u \<in> lang a \<and> v \<in> lang b}"
| "lang (Alt a b) = lang a \<union> lang b"
| "lang (Star a) = {concat us | us. set us \<subseteq> lang a}"
| "lang (LazyStar a) = {concat us | us. set us \<subseteq> lang a}"

subsection \<open>The script's patterns and text helpers\<close>

text \<open>\<^verbatim>\<open>TITLE_RE = re.compile(r"<title[^>]*>(.*?)</title>", re.IGNORECASE | re.DOTALL)\<close>\<close>

definition TITLE_RE :: grouped_re where
  "TITLE_RE =
     (Seq (lit_ci ''<title'') (Seq (Star not_gt) (chr CHR ''>'')),
      LazyStar any_char,
      lit_ci ''</title>'')"

text \<open>\<^verbatim>\<open>TAG_RE = re.compile(r"<[^>]+>")\<close>\<close>

definition TAG_RE :: re where
  "TAG_RE = Seq (chr CHR ''<'') (Seq (Plus not_gt) (chr CHR ''>''))"

text \<open>\<^verbatim>\<open>WHITESPACE_RE = re.compile(r"\s+")\<close>\<close>

definition WHITESPACE_RE :: re where
  "WHITESPACE_RE = Plus ws"

text \<open>
  \<^verbatim>\<open>NOT_FOUND_H1_RE = re.compile(
      r"<h1[^>]*>\s*(404(?:\s+not\s+found)?|page\s+not\s+found|not\s+found)\s*</h1>",
      re.IGNORECASE)\<close>
\<close>

definition not_found_words :: re where
  "not_found_words = Seq (lit_ci ''not'') (Seq (Plus ws) (lit_ci ''found''))"

definition NOT_FOUND_H1_RE :: re where
  "NOT_FOUND_H1_RE =
     Seq (lit_ci ''<h1'') (Seq (Star not_gt) (Seq (chr CHR ''>'') (Seq (Star ws)
       (Seq (Alt (Seq (lit_ci ''404'') (Opt (Seq (Plus ws) not_found_words)))
            (Alt (Seq (lit_ci ''page'') (Seq (Plus ws) not_found_words))
                 not_found_words))
       (Seq (Star ws) (lit_ci ''</h1>''))))))"

text \<open>The pattern of \<^verbatim>\<open>re.search(r"charset=([^\s;]+)", content_type, re.IGNORECASE)\<close>\<close>

definition CHARSET_RE :: grouped_re where
  "CHARSET_RE = (lit_ci ''charset='', Plus not_space_semi, Eps)"

definition normalize_spaces :: "string \<Rightarrow> string" where
  "normalize_spaces value = strip (re_sub WHITESPACE_RE '' '' value)"

definition is_html :: "string \<Rightarrow> bool" where
  "is_html content_type =
     (let lowered = lower content_type
      in contains ''text/html'' lowered \<or> contains ''application/xhtml+xml'' lowered)"

definition not_found_heuristic :: "string \<Rightarrow> string option" where
  "not_found_heuristic html =
     (if html = [] then None
      else
        (case (case re_search_group TITLE_RE html of
                 None \<Rightarrow> None
               | Some g \<Rightarrow>
                   (let title_text = normalize_spaces (lower (re_sub TAG_RE '' '' g))
                    in if contains ''404'' title_text \<and> contains ''not found'' title_text
                       then Some ''HTML title indicates 404''
                       else if contains ''page not found'' title_text
                       then Some ''HTML title indicates missing page''
                       else None)) of
           Some reason \<Rightarrow> Some reason
         | None \<Rightarrow>
             if re_search NOT_FOUND_H1_RE html \<noteq> None
             then Some ''HTML h1 indicates missing page''
             else None))"

subsection \<open>Decoding a response body\<close>

type_synonym bytes = "8 word list"

text \<open>
  The codec registry of Python is a parameter. \<open>utf8\<close> and \<open>latin1\<close> are the decoders that
  \<^verbatim>\<open>raw.decode("utf-8", errors="replace")\<close> and \<^verbatim>\<open>raw.decode("latin-1", errors="replace")\<close>
  run; \<open>other name\<close> is the decoder (also with \<^verbatim>\<open>errors="replace"\<close>) registered under any
  other name, and \<open>None\<close> when \<^verbatim>\<open>bytes.decode\<close> raises \<^verbatim>\<open>LookupError\<close> for it. The type \<open>'c\<close>
  is the type of the decoded characters.
\<close>

record 'c codecs =
  utf8 :: "bytes \<Rightarrow> 'c list"
  latin1 :: "bytes \<Rightarrow> 'c list"
  other :: "string \<Rightarrow> (bytes \<Rightarrow> 'c list) option"

definition codec_lookup :: "'c codecs \<Rightarrow> string \<Rightarrow> (bytes \<Rightarrow> 'c list) option" where
  "codec_lookup reg name =
     (if name = ''utf-8'' then Some (utf8 reg)
      else if name = ''latin-1'' then Some (latin1 reg)
      else other reg name)"

text \<open>The loop \<^verbatim>\<open>for encoding in encodings\<close> of \<^verbatim>\<open>decode_body\<close>, and the \<^verbatim>\<open>return\<close> after it.\<close>

fun decode_first :: "'c codecs \<Rightarrow> string list \<Rightarrow> bytes \<Rightarrow> 'c list" where
  "decode_first reg [] raw = utf8 reg raw"
| "decode_first reg (encoding # encodings) raw =
     (case codec_lookup reg encoding of
        Some decode \<Rightarrow> decode raw
      | None \<Rightarrow> decode_first reg encodings raw)"

definition decode_body :: "'c codecs \<Rightarrow> bytes \<Rightarrow> string \<Rightarrow> 'c list" where
  "decode_body reg raw content_type =
     (if raw = [] then []
      else
        (let charset_match = re_search_group CHARSET_RE content_type;
             encodings =
               (case charset_match of
                  Some g \<Rightarrow> [strip_chars [CHR 0x22, CHR 0x27] g]
                | None \<Rightarrow> []) @ [''utf-8'', ''latin-1'']
         in decode_first reg encodings raw))"

subsection \<open>Probes and verdicts\<close>

text \<open>
  \<^verbatim>\<open>ProbeResult\<close> and \<^verbatim>\<open>UrlResult\<close> share the fields \<^verbatim>\<open>status\<close>, \<^verbatim>\<open>method\<close> and \<^verbatim>\<open>final_url\<close>;
  they are the common part of the two records.
\<close>

record Outcome_Fields =
  status :: "int option"
  "method" :: string
  final_url :: "string option"

record ProbeResult = Outcome_Fields +
  content_type :: string
  body :: string
  error :: "string option"

record UrlResult = Outcome_Fields +
  ok :: bool
  detail :: string
  retryable :: bool

text \<open>
  What \<^verbatim>\<open>urlopen\<close> does for one request, as \<^verbatim>\<open>fetch\<close> sees it:
  \<^item> \<open>Response code url ctype data\<close>: a response with \<^verbatim>\<open>getcode()\<close>, \<^verbatim>\<open>geturl()\<close>, the
    \<^verbatim>\<open>Content-Type\<close> header (\<open>None\<close> when absent) and the bytes that
    \<^verbatim>\<open>response.read(max_body_bytes)\<close> returns;
  \<^item> \<open>HTTPError code url ctype data\<close>: \<^verbatim>\<open>HTTPError\<close> is raised, with its \<^verbatim>\<open>code\<close>, the value
    of \<^verbatim>\<open>geturl()\<close> (\<open>None\<close> when the error has no such attribute), the \<^verbatim>\<open>Content-Type\<close>
    header (\<open>None\<close> when the headers are missing or lack it) and the bytes
    \<^verbatim>\<open>error.read(max_body_bytes)\<close> returns (\<open>None\<close> when it raises \<^verbatim>\<open>OSError\<close>);
  \<^item> \<open>NetworkError name reason\<close>: \<^verbatim>\<open>URLError\<close>, a timeout or another \<^verbatim>\<open>OSError\<close> is
    raised, with the name of its class and the text of its reason.
\<close>

datatype outcome =
    Response int string "string option" bytes
  | HTTPError int "string option" "string option" "bytes option"
  | NetworkError string string

datatype event = Request string string | Sleep real | Print string

type_synonym trace = "event list"

text \<open>
  The environment of a run. \<open>urlopen tr meth url timeout max_body_bytes\<close> is the outcome of
  the request issued after the events \<open>tr\<close>; \<open>urlparse\<close> gives the \<^verbatim>\<open>scheme\<close> and \<^verbatim>\<open>netloc\<close>
  of \<^verbatim>\<open>urllib.parse.urlparse\<close>, or the exception it raises; \<open>str_of\<close> is Python's \<^verbatim>\<open>str\<close> on
  the JSON values that are not strings.
\<close>

datatype json =
    JNull | JBool bool | JNum int | JStr string | JArr "json list" | JObj "(string \<times> json) list"

datatype error = AttributeError | TypeError | ValueError

record url_parts =
  scheme :: string
  netloc :: string

record env =
  urlopen :: "trace \<Rightarrow> string \<Rightarrow> string \<Rightarrow> real \<Rightarrow> int \<Rightarrow> outcome"
  codecs :: "char codecs"
  urlparse :: "string \<Rightarrow> error + url_parts"
  str_of :: "json \<Rightarrow> string"

definition fetch ::
  "env \<Rightarrow> string \<Rightarrow> string \<Rightarrow> real \<Rightarrow> int \<Rightarrow> trace \<Rightarrow> ProbeResult \<times> trace" where
  "fetch e url meth timeout max_body_bytes tr =
     (case urlopen e tr meth url timeout max_body_bytes of
        Response code final ctype data \<Rightarrow>
          (let raw = (if meth = ''GET'' then data else []);
               content_type = (case ctype of Some v \<Rightarrow> v | None \<Rightarrow> [])
           in (\<lparr>status = Some code, method = meth, final_url = Some final,
                content_type = content_type,
                body = decode_body (codecs e) raw content_type,
                error = None\<rparr>,
               tr @ [Request meth url]))
      | HTTPError code final ctype data \<Rightarrow>
          (let raw = (if meth = ''GET'' then (case data of Some d \<Rightarrow> d | None \<Rightarrow> []) else []);
               content_type = (case ctype of Some v \<Rightarrow> v | None \<Rightarrow> [])
           in (\<lparr>status = Some code, method = meth,
                final_url = Some (case final of Some u \<Rightarrow> u | None \<Rightarrow> url),
                content_type = content_type,
                body = decode_body (codecs e) raw content_type,
                error = Some (''HTTP '' @ str_int code)\<rparr>,
               tr @ [Request meth url]))
      | NetworkError name reason \<Rightarrow>
          (\<lparr>status = None, method = meth, final_url = None,
            content_type = [], body = [],
            error = Some (name @ '': '' @ reason)\<rparr>,
           tr @ [Request meth url]))"

definition RETRYABLE_STATUSES :: "int set" where
  "RETRYABLE_STATUSES = {408, 429, 500, 502, 503, 504}"

text \<open>\<^verbatim>\<open>value or default\<close> for an optional string: \<open>None\<close> and the empty string are false.\<close>

definition or_else :: "string option \<Rightarrow> string \<Rightarrow> string" where
  "or_else v d = (case v of None \<Rightarrow> d | Some s \<Rightarrow> if s = [] then d else s)"

definition evaluate_probe :: "ProbeResult \<Rightarrow> UrlResult" where
  "evaluate_probe probe =
     (case status probe of
        None \<Rightarrow>
          \<lparr>status = None, method = method probe, final_url = final_url probe,
           ok = False, detail = or_else (error probe) ''network failure'', retryable = True\<rparr>
      | Some st \<Rightarrow>
          if st \<ge> 400 then
            \<lparr>status = Some st, method = method probe, final_url = final_url probe,
             ok = False, detail = or_else (error probe) (''HTTP '' @ str_int st),
             retryable = (st \<in> RETRYABLE_STATUSES)\<rparr>
          else
            (case (if method probe = ''GET'' \<and> is_html (content_type probe)
                   then not_found_heuristic (body probe) else None) of
               Some heuristic \<Rightarrow>
                 if heuristic \<noteq> [] then
                   \<lparr>status = Some st, method = method probe, final_url = final_url probe,
                    ok = False, detail = heuristic, retryable = False\<rparr>
                 else
                   \<lparr>status = Some st, method = method probe, final_url = final_url probe,
                    ok = True, detail = ''ok'', retryable = False\<rparr>
             | None \<Rightarrow>
                 \<lparr>status = Some st, method = method probe, final_url = final_url probe,
                  ok = True, detail = ''ok'', retryable = False\<rparr>))"

definition check_once ::
  "env \<Rightarrow> string \<Rightarrow> real \<Rightarrow> int \<Rightarrow> trace \<Rightarrow> UrlResult \<times> trace" where
  "check_once e url timeout max_body_bytes tr =
     (let (head_probe, tr1) = fetch e url ''HEAD'' timeout max_body_bytes tr;
          head_result = evaluate_probe head_probe
      in if ok head_result \<and> \<not> is_html (content_type head_probe) then (head_result, tr1)
         else
           (let (get_probe, tr2) = fetch e url ''GET'' timeout max_body_bytes tr1;
                get_result = evaluate_probe get_probe;
                get_result =
                  (if ok head_result then get_result\<lparr>method := ''GET (verify-html)''\<rparr>
                   else if method get_result = ''GET''
                   then get_result\<lparr>method := ''GET (fallback)''\<rparr>
                   else get_result)
            in if \<not> ok get_result
                  \<and> (case status head_probe of None \<Rightarrow> False | Some st \<Rightarrow> st \<noteq> 0 \<and> st \<ge> 400)
                  \<and> status get_probe = None
               then (head_result, tr2)
               else (get_result, tr2)))"

text \<open>
  The loop \<^verbatim>\<open>for attempt in range(1, attempts + 1)\<close> of \<^verbatim>\<open>check_with_retries\<close>, entered at
  \<open>attempt\<close> with the latest \<open>result\<close>; when the range is exhausted the statement after the
  loop returns \<^verbatim>\<open>(result, attempts)\<close>.
\<close>

function retry_loop ::
  "env \<Rightarrow> string \<Rightarrow> real \<Rightarrow> real \<Rightarrow> int \<Rightarrow> int \<Rightarrow> int \<Rightarrow> UrlResult \<Rightarrow> trace
     \<Rightarrow> (UrlResult \<times> int) \<times> trace" where
  "retry_loop e url retry_delay timeout max_body_bytes attempts attempt result tr =
     (if attempt > attempts then ((result, attempts), tr)
      else
        (let (result', tr1) = check_once e url timeout max_body_bytes tr
         in if ok result' then ((result', attempt), tr1)
            else if retryable result' \<and> attempt < attempts
            then retry_loop e url retry_delay timeout max_body_bytes attempts (attempt + 1)
                   result' (tr1 @ [Sleep (retry_delay * of_int attempt)])
            else ((result', attempt), tr1)))"
  by pat_completeness auto
termination
  by (relation "measure (\<lambda>(e, url, retry_delay, timeout, max_body_bytes, attempts, attempt,
                            result, tr). nat (attempts + 1 - attempt))") auto

definition check_with_retries ::
  "env \<Rightarrow> string \<Rightarrow> int \<Rightarrow> real \<Rightarrow> real \<Rightarrow> int \<Rightarrow> trace \<Rightarrow> (UrlResult \<times> int) \<times> trace" where
  "check_with_retries e url retries retry_delay timeout max_body_bytes tr =
     (let attempts = retries + 1;
          result = \<lparr>status = None, method = ''HEAD'', final_url = None,
                    ok = False, detail = ''uninitialized'', retryable = True\<rparr>
      in retry_loop e url retry_delay timeout max_body_bytes attempts 1 result tr)"

declare retry_loop.simps [simp del]

text \<open>
  For the statements about the retry loop: \<open>trace_before \<dots> k\<close> is the trace at the start
  of attempt \<open>k + 1\<close> when each of the attempts \<open>1, \<dots>, k\<close> was followed by its backoff
  sleep; \<open>verdict_of \<dots> k\<close> and \<open>trace_after \<dots> k\<close> are the verdict of attempt \<open>k + 1\<close> and
  the trace at its end.
\<close>

fun trace_before :: "env \<Rightarrow> string \<Rightarrow> real \<Rightarrow> real \<Rightarrow> int \<Rightarrow> trace \<Rightarrow> nat \<Rightarrow> trace" where
  "trace_before e url retry_delay timeout max_body_bytes tr 0 = tr"
| "trace_before e url retry_delay timeout max_body_bytes tr (Suc k) =
     snd (check_once e url timeout max_body_bytes
            (trace_before e url retry_delay timeout max_body_bytes tr k))
       @ [Sleep (retry_delay * of_int (int k + 1))]"

definition verdict_of ::
  "env \<Rightarrow> string \<Rightarrow> real \<Rightarrow> real \<Rightarrow> int \<Rightarrow> trace \<Rightarrow> nat \<Rightarrow> UrlResult" where
  "verdict_of e url retry_delay timeout max_body_bytes tr k =
     fst (check_once e url timeout max_body_bytes
            (trace_before e url retry_delay timeout max_body_bytes tr k))"

definition trace_after ::
  "env \<Rightarrow> string \<Rightarrow> real \<Rightarrow> real \<Rightarrow> int \<Rightarrow> trace \<Rightarrow> nat \<Rightarrow> trace" where
  "trace_after e url retry_delay timeout max_body_bytes tr k =
     snd (check_once e url timeout max_body_bytes
            (trace_before e url retry_delay timeout max_body_bytes tr k))"

text \<open>What a trace holds: the HEAD requests, the requested URLs, the sleeps, the printed lines.\<close>

definition head_requests :: "trace \<Rightarrow> nat" where
  "head_requests tr =
     length (filter (\<lambda>ev. case ev of Request meth url \<Rightarrow> meth = ''HEAD'' | _ \<Rightarrow> False) tr)"

definition requested :: "trace \<Rightarrow> string list" where
  "requested tr = concat (map (\<lambda>ev. case ev of Request meth url \<Rightarrow> [url] | _ \<Rightarrow> []) tr)"

definition sleeps :: "trace \<Rightarrow> real list" where
  "sleeps tr = concat (map (\<lambda>ev. case ev of Sleep d \<Rightarrow> [d] | _ \<Rightarrow> []) tr)"

definition printed :: "trace \<Rightarrow> string list" where
  "printed tr = concat (map (\<lambda>ev. case ev of Print line \<Rightarrow> [line] | _ \<Rightarrow> []) tr)"

subsection \<open>The rules dataset\<close>

text \<open>
  The value \<^verbatim>\<open>json.loads\<close> returns. An object keeps its members in order; a lookup takes the
  first member of a key. A number is only ever tested for being zero.
\<close>

fun truthy :: "json \<Rightarrow> bool" where
  "truthy JNull = False"
| "truthy (JBool b) = b"
| "truthy (JNum n) = (n \<noteq> 0)"
| "truthy (JStr s) = (s \<noteq> [])"
| "truthy (JArr xs) = (xs \<noteq> [])"
| "truthy (JObj kvs) = (kvs \<noteq> [])"

text \<open>\<^verbatim>\<open>x.get(key, default)\<close>: only a \<^verbatim>\<open>dict\<close> has the method.\<close>

fun py_get :: "json \<Rightarrow> string \<Rightarrow> json \<Rightarrow> error + json" where
  "py_get (JObj kvs) key dflt =
     Inr (case map_of kvs key of Some v \<Rightarrow> v | None \<Rightarrow> dflt)"
| "py_get v key dflt = Inl AttributeError"

text \<open>\<^verbatim>\<open>x or default\<close>\<close>

definition py_or :: "json \<Rightarrow> json \<Rightarrow> json" where
  "py_or v dflt = (if truthy v then v else dflt)"

text \<open>
  \<^verbatim>\<open>for item in x\<close>: a list gives its elements, a \<^verbatim>\<open>dict\<close> its keys, a string its characters;
  \<^verbatim>\<open>None\<close>, a Boolean and a number are not iterable.
\<close>

fun py_iter :: "json \<Rightarrow> error + json list" where
  "py_iter (JArr xs) = Inr xs"
| "py_iter (JObj kvs) = Inr (map (\<lambda>kv. JStr (fst kv)) kvs)"
| "py_iter (JStr s) = Inr (map (\<lambda>c. JStr [c]) s)"
| "py_iter v = Inl TypeError"

text \<open>\<^verbatim>\<open>str(v)\<close> inside an f-string.\<close>

definition py_str :: "(json \<Rightarrow> string) \<Rightarrow> json \<Rightarrow> string" where
  "py_str f v = (case v of JStr s \<Rightarrow> s | _ \<Rightarrow> f v)"

text \<open>\<^verbatim>\<open>f"{rule.get('id', '<unknown>')}"\<close>, for a rule that is a \<^verbatim>\<open>dict\<close>.\<close>

definition rule_id :: "(json \<Rightarrow> string) \<Rightarrow> json \<Rightarrow> string" where
  "rule_id f rule =
     (case py_get rule ''id'' (JStr ''<unknown>'') of Inr v \<Rightarrow> py_str f v | Inl err \<Rightarrow> [])"

text \<open>The three diagnostics of \<^verbatim>\<open>load_unique_urls\<close>.\<close>

definition non_string_entry :: "string \<Rightarrow> string" where
  "non_string_entry rid = rid @ '': non-string URL entry''"

definition empty_entry :: "string \<Rightarrow> string" where
  "empty_entry rid = rid @ '': empty URL entry''"

definition invalid_url_entry :: "string \<Rightarrow> string \<Rightarrow> string" where
  "invalid_url_entry rid url = rid @ '': invalid URL '' @ [CHR 0x27] @ url @ [CHR 0x27]"

text \<open>
  The body of \<^verbatim>\<open>for raw in source_urls\<close>, for one entry \<open>raw\<close> of \<open>rule\<close>: the URL it adds
  to \<^verbatim>\<open>urls\<close>, the diagnostic it adds to \<^verbatim>\<open>invalid\<close>, or the exception of \<^verbatim>\<open>urlparse\<close>.
\<close>

datatype entry_class = Valid string | Invalid string | Raises error

definition classify_entry ::
  "(string \<Rightarrow> error + url_parts) \<Rightarrow> (json \<Rightarrow> string) \<Rightarrow> json \<Rightarrow> json \<Rightarrow> entry_class" where
  "classify_entry up f rule raw =
     (case raw of
        JStr s \<Rightarrow>
          (let url = strip s
           in if url = [] then Invalid (empty_entry (rule_id f rule))
              else
                (case up url of
                   Inl err \<Rightarrow> Raises err
                 | Inr parsed \<Rightarrow>
                     if scheme parsed \<notin> {''http'', ''https''} \<or> netloc parsed = []
                     then Invalid (invalid_url_entry (rule_id f rule) url)
                     else Valid url))
      | _ \<Rightarrow> Invalid (non_string_entry (rule_id f rule)))"

text \<open>The loop \<^verbatim>\<open>for raw in source_urls\<close>, on the sets \<^verbatim>\<open>urls\<close> and \<^verbatim>\<open>invalid\<close>.\<close>

fun scan_entries ::
  "(string \<Rightarrow> error + url_parts) \<Rightarrow> (json \<Rightarrow> string) \<Rightarrow> json \<Rightarrow> json list
     \<Rightarrow> string set \<times> string set \<Rightarrow> error + (string set \<times> string set)" where
  "scan_entries up f rule [] acc = Inr acc"
| "scan_entries up f rule (raw # rest) (urls, invalid) =
     (case classify_entry up f rule raw of
        Valid url \<Rightarrow> scan_entries up f rule rest (insert url urls, invalid)
      | Invalid d \<Rightarrow> scan_entries up f rule rest (urls, insert d invalid)
      | Raises err \<Rightarrow> Inl err)"

text \<open>
  The entries that \<^verbatim>\<open>for raw in source_urls\<close> runs over for a rule:
  \<^verbatim>\<open>evidence = rule.get("evidence") or {}\<close>, then
  \<^verbatim>\<open>source_urls = evidence.get("source_urls") or []\<close>, then the iteration.
\<close>

definition rule_entries :: "json \<Rightarrow> error + json list" where
  "rule_entries rule =
     (case py_get rule ''evidence'' JNull of
        Inl err \<Rightarrow> Inl err
      | Inr ev \<Rightarrow>
          (case py_get (py_or ev (JObj [])) ''source_urls'' JNull of
             Inl err \<Rightarrow> Inl err
           | Inr su \<Rightarrow> py_iter (py_or su (JArr []))))"

text \<open>The loop \<^verbatim>\<open>for rule in rules\<close>.\<close>

fun scan_rules ::
  "(string \<Rightarrow> error + url_parts) \<Rightarrow> (json \<Rightarrow> string) \<Rightarrow> json list
     \<Rightarrow> string set \<times> string set \<Rightarrow> error + (string set \<times> string set)" where
  "scan_rules up f [] acc = Inr acc"
| "scan_rules up f (rule # rest) acc =
     (case rule_entries rule of
        Inl err \<Rightarrow> Inl err
      | Inr source_urls \<Rightarrow>
          (case scan_entries up f rule source_urls acc of
             Inl err \<Rightarrow> Inl err
           | Inr acc' \<Rightarrow> scan_rules up f rest acc'))"

text \<open>The rules that \<^verbatim>\<open>for rule in rules\<close> runs over: \<^verbatim>\<open>rules = data.get("rules", [])\<close>.\<close>

definition dataset_rules :: "json \<Rightarrow> error + json list" where
  "dataset_rules data =
     (case py_get data ''rules'' (JArr []) of
        Inl err \<Rightarrow> Inl err
      | Inr rules \<Rightarrow> py_iter rules)"

text \<open>
  \<^verbatim>\<open>load_unique_urls\<close>, from the value of \<^verbatim>\<open>json.loads(path.read_text(encoding="utf-8"))\<close> on.
\<close>

definition load_unique_urls ::
  "(string \<Rightarrow> error + url_parts) \<Rightarrow> (json \<Rightarrow> string) \<Rightarrow> json
     \<Rightarrow> error + (string list \<times> string list)" where
  "load_unique_urls up f data =
     (case dataset_rules data of
        Inl err \<Rightarrow> Inl err
      | Inr rules \<Rightarrow>
          (case scan_rules up f rules ({}, {}) of
             Inl err \<Rightarrow> Inl err
           | Inr (urls, invalid) \<Rightarrow>
               Inr (sorted_list_of_set urls, sorted_list_of_set invalid)))"

text \<open>
  For the statements about a dataset: its evidence entries, each with the rule that owns
  it, in the order in which \<^verbatim>\<open>load_unique_urls\<close> visits them.
\<close>

definition entries_of :: "json \<Rightarrow> (json \<times> json) list" where
  "entries_of data =
     (case dataset_rules data of
        Inl err \<Rightarrow> []
      | Inr rules \<Rightarrow>
          concat (map (\<lambda>rule. case rule_entries rule of
                                 Inl err \<Rightarrow> []
                               | Inr source_urls \<Rightarrow> map (\<lambda>raw. (rule, raw)) source_urls)
                      rules))"

text \<open>The URLs of the valid entries of a dataset, and the diagnostics of its invalid ones.\<close>

definition valid_urls ::
  "(string \<Rightarrow> error + url_parts) \<Rightarrow> (json \<Rightarrow> string) \<Rightarrow> json \<Rightarrow> string set" where
  "valid_urls up f data =
     {u. \<exists>x \<in> set (entries_of data). classify_entry up f (fst x) (snd x) = Valid u}"

definition diagnostics ::
  "(string \<Rightarrow> error + url_parts) \<Rightarrow> (json \<Rightarrow> string) \<Rightarrow> json \<Rightarrow> string set" where
  "diagnostics up f data =
     {d. \<exists>x \<in> set (entries_of data). classify_entry up f (fst x) (snd x) = Invalid d}"

subsection \<open>The report\<close>

record args =
  arg_retries :: int
  arg_retry_delay :: real
  arg_timeout :: real
  arg_max_body_bytes :: int

text \<open>The loop \<^verbatim>\<open>for entry in invalid_entries\<close> of \<^verbatim>\<open>main\<close>, on \<^verbatim>\<open>broken\<close> and the trace.\<close>

definition parse_line :: "string \<Rightarrow> string" where
  "parse_line entry = ''BROKEN [-] parse '' @ entry"

fun report_invalid :: "string list \<Rightarrow> int \<times> trace \<Rightarrow> int \<times> trace" where
  "report_invalid [] st = st"
| "report_invalid (entry # rest) (broken, tr) =
     report_invalid rest (broken + 1, tr @ [Print (parse_line entry)])"

text \<open>The line \<^verbatim>\<open>main\<close> prints for a URL, its verdict and its attempt count.\<close>

definition report_line :: "string \<Rightarrow> UrlResult \<Rightarrow> int \<Rightarrow> string" where
  "report_line url result attempt =
     (let status_s = (case status result of Some st \<Rightarrow> str_int st | None \<Rightarrow> ''-'');
          redirect =
            (case final_url result of
               Some f \<Rightarrow> if f \<noteq> [] \<and> f \<noteq> url then '' -> '' @ f else []
             | None \<Rightarrow> [])
      in if ok result then
           ''OK     ['' @ status_s @ ''] '' @ method result @ '' '' @ url @ redirect
         else
           ''BROKEN ['' @ status_s @ ''] '' @ method result @ '' '' @ url @ '' (''
             @ detail result @ ''; attempts='' @ str_int attempt @ '')'' @ redirect)"

text \<open>The loop \<^verbatim>\<open>for url in urls\<close> of \<^verbatim>\<open>main\<close>, on \<^verbatim>\<open>ok\<close>, \<^verbatim>\<open>broken\<close> and the trace.\<close>

fun check_urls :: "env \<Rightarrow> args \<Rightarrow> string list \<Rightarrow> int \<times> int \<times> trace \<Rightarrow> int \<times> int \<times> trace" where
  "check_urls e a [] st = st"
| "check_urls e a (url # rest) (ok_n, broken, tr) =
     (let ((result, attempt), tr1) =
            check_with_retries e url (arg_retries a) (arg_retry_delay a) (arg_timeout a)
              (arg_max_body_bytes a) tr
      in if ok result then
           check_urls e a rest (ok_n + 1, broken, tr1 @ [Print (report_line url result attempt)])
         else
           check_urls e a rest (ok_n, broken + 1, tr1 @ [Print (report_line url result attempt)]))"

text \<open>
  For the statements about the report: the results of the calls of \<^verbatim>\<open>check_with_retries\<close>
  that the loop \<^verbatim>\<open>for url in urls\<close> makes, in order.
\<close>

fun outcomes :: "env \<Rightarrow> args \<Rightarrow> string list \<Rightarrow> trace \<Rightarrow> (UrlResult \<times> int) list" where
  "outcomes e a [] tr = []"
| "outcomes e a (url # rest) tr =
     (let (out, tr1) =
            check_with_retries e url (arg_retries a) (arg_retry_delay a) (arg_timeout a)
              (arg_max_body_bytes a) tr
      in out # outcomes e a rest (tr1 @ [Print (report_line url (fst out) (snd out))]))"

definition run_outcomes ::
  "env \<Rightarrow> args \<Rightarrow> string list \<Rightarrow> string list \<Rightarrow> (UrlResult \<times> int) list" where
  "run_outcomes e a urls invalid_entries =
     outcomes e a urls (map (\<lambda>entry. Print (parse_line entry)) invalid_entries)"

definition summary_line :: "int \<Rightarrow> int \<Rightarrow> int \<Rightarrow> string" where
  "summary_line total_n ok_n broken =
     ''Summary: checked='' @ str_int total_n @ '' ok='' @ str_int ok_n
       @ '' broken='' @ str_int broken"

text \<open>
  \<^verbatim>\<open>main\<close>, from the loaded dataset on: the exit code and the trace of the run, or the
  exception that \<^verbatim>\<open>load_unique_urls\<close> raises.
\<close>

definition main :: "env \<Rightarrow> args \<Rightarrow> json \<Rightarrow> error + (int \<times> trace)" where
  "main e a data =
     (case load_unique_urls (urlparse e) (str_of e) data of
        Inl err \<Rightarrow> Inl err
      | Inr (urls, invalid_entries) \<Rightarrow>
          (let (broken, tr) = report_invalid invalid_entries (0, []);
               (ok_n, broken, tr) = check_urls e a urls (0, broken, tr);
               total_n = int (length urls) + int (length invalid_entries);
               tr = tr @ [Print (summary_line total_n ok_n broken)]
           in Inr (if broken \<noteq> 0 then 1 else 0, tr)))"

subsection \<open>Models of the library functions, for concrete runs\<close>

text \<open>
  \<^verbatim>\<open>urllib.parse.urlparse\<close>, as far as its \<^verbatim>\<open>scheme\<close> and \<^verbatim>\<open>netloc\<close> go: leading control
  characters and spaces are dropped, tabs and line breaks removed; the scheme is the text
  before the first colon when it starts with an ASCII letter and consists of letters,
  digits, \<^verbatim>\<open>+\<close>, \<^verbatim>\<open>-\<close> and \<^verbatim>\<open>.\<close>; the netloc is what follows \<^verbatim>\<open>//\<close> up to the next \<^verbatim>\<open>/\<close>, \<^verbatim>\<open>?\<close> or
  \<^verbatim>\<open>#\<close>; unbalanced square brackets in the netloc raise \<^verbatim>\<open>ValueError\<close>.
\<close>

definition is_ascii_alpha :: "char \<Rightarrow> bool" where
  "is_ascii_alpha c =
     (let n = of_char c :: nat in (65 \<le> n \<and> n \<le> 90) \<or> (97 \<le> n \<and> n \<le> 122))"

definition is_scheme_char :: "char \<Rightarrow> bool" where
  "is_scheme_char c =
     (let n = of_char c :: nat
      in is_ascii_alpha c \<or> (48 \<le> n \<and> n \<le> 57) \<or> c \<in> {CHR ''+'', CHR ''-'', CHR ''.''})"

definition py_urlparse :: "string \<Rightarrow> error + url_parts" where
  "py_urlparse url =
     (let url1 = dropWhile (\<lambda>c. (of_char c :: nat) \<le> 32) url;
          url2 = filter (\<lambda>c. c \<notin> {CHR 0x09, CHR 0x0A, CHR 0x0D}) url1;
          name = takeWhile (\<lambda>c. c \<noteq> CHR '':'') url2;
          has_scheme = (length name < length url2 \<and> name \<noteq> [] \<and> is_ascii_alpha (hd name)
                        \<and> list_all is_scheme_char name);
          sch = (if has_scheme then lower name else []);
          rest = (if has_scheme then drop (length name + 1) url2 else url2);
          loc = (if take 2 rest = ''//''
                 then takeWhile (\<lambda>c. c \<notin> {CHR ''/'', CHR ''?'', CHR ''#''}) (drop 2 rest)
                 else [])
      in if (CHR ''['' \<in> set loc) \<noteq> (CHR '']'' \<in> set loc) then Inl ValueError
         else Inr \<lparr>scheme = sch, netloc = loc\<rparr>)"

text \<open>
  The \<^verbatim>\<open>hostname\<close> of a parse result: the netloc without the user information before the
  last \<^verbatim>\<open>@\<close> and without the port; \<open>None\<close> when it is empty.
\<close>

definition hostname :: "url_parts \<Rightarrow> string option" where
  "hostname parsed =
     (let hostinfo = rev (takeWhile (\<lambda>c. c \<noteq> CHR ''@'') (rev (netloc parsed)));
          host = (if CHR ''['' \<in> set hostinfo
                  then takeWhile (\<lambda>c. c \<noteq> CHR '']'')
                         (drop 1 (dropWhile (\<lambda>c. c \<noteq> CHR ''['') hostinfo))
                  else takeWhile (\<lambda>c. c \<noteq> CHR '':'') hostinfo)
      in if host = [] then None else Some (lower host))"

text \<open>
  The UTF-8 decoder over code points. \<open>utf8_items\<close> yields \<open>Some\<close> code point for each
  well-formed sequence and \<open>None\<close> for each ill-formed one (a lead byte with the
  continuation bytes that are still valid after it). \<^verbatim>\<open>errors="replace"\<close> puts U+FFFD for an
  ill-formed sequence; the strict decoder fails when there is one.
\<close>

definition is_cont :: "8 word \<Rightarrow> bool" where
  "is_cont b = (0x80 \<le> unat b \<and> unat b \<le> 0xBF)"

function utf8_items :: "bytes \<Rightarrow> nat option list" where
  "utf8_items [] = []"
| "utf8_items (b # bs) =
     (let n = unat b
      in if n < 0x80 then Some n # utf8_items bs
         else if n < 0xC2 \<or> 0xF4 < n then None # utf8_items bs
         else
           (let k = (if n < 0xE0 then 1 else if n < 0xF0 then 2 else 3 :: nat);
                lead = (if n < 0xE0 then n - 0xC0 else if n < 0xF0 then n - 0xE0 else n - 0xF0);
                lo = (if n = 0xE0 then 0xA0 else if n = 0xF0 then 0x90 else 0x80);
                hi = (if n = 0xED then 0x9F else if n = 0xF4 then 0x8F else 0xBF);
                first_ok = (case bs of [] \<Rightarrow> False | c # cs \<Rightarrow> lo \<le> unat c \<and> unat c \<le> hi);
                good = (if first_ok
                        then Suc (length (takeWhile is_cont (take (k - 1) (tl bs))))
                        else 0)
            in if good = k
               then Some (foldl (\<lambda>acc c. acc * 64 + (unat c - 0x80)) lead (take k bs))
                      # utf8_items (drop k bs)
               else None # utf8_items (drop good bs)))"
  by pat_completeness auto
termination
  by (relation "measure length") auto

definition utf8_replace :: "bytes \<Rightarrow> nat list" where
  "utf8_replace raw = map (\<lambda>x. case x of Some cp \<Rightarrow> cp | None \<Rightarrow> 0xFFFD) (utf8_items raw)"

definition utf8_strict :: "bytes \<Rightarrow> nat list option" where
  "utf8_strict raw = those (utf8_items raw)"

definition latin1_decode :: "bytes \<Rightarrow> nat list" where
  "latin1_decode raw = map unat raw"

text \<open>A registry over code points that knows the two built-in codecs and no other name.\<close>

definition python_codecs :: "nat codecs" where
  "python_codecs = \<lparr>utf8 = utf8_replace, latin1 = latin1_decode, other = (\<lambda>name. None)\<rparr>"

subsection \<open>Example environments\<close>

text \<open>
  A registry over the 8-bit strings of this theory: Latin-1 is exact; UTF-8 is the decoder
  above, with \<^verbatim>\<open>?\<close> for U+FFFD and for every code point beyond U+00FF.
\<close>

definition narrow_codecs :: "char codecs" where
  "narrow_codecs =
     \<lparr>utf8 = (\<lambda>raw. map (\<lambda>cp. if cp < 256 then char_of cp else CHR ''?'') (utf8_replace raw)),
      latin1 = (\<lambda>raw. map (\<lambda>b. char_of (unat b)) raw),
      other = (\<lambda>name. None)\<rparr>"

text \<open>\<^verbatim>\<open>str\<close> on the scalar JSON values; lists and objects are elided.\<close>

definition scalar_str :: "json \<Rightarrow> string" where
  "scalar_str v =
     (case v of
        JNull \<Rightarrow> ''None''
      | JBool b \<Rightarrow> (if b then ''True'' else ''False'')
      | JNum n \<Rightarrow> str_int n
      | JStr s \<Rightarrow> s
      | _ \<Rightarrow> ''...'')"

definition demo_env :: "(trace \<Rightarrow> string \<Rightarrow> string \<Rightarrow> real \<Rightarrow> int \<Rightarrow> outcome) \<Rightarrow> env" where
  "demo_env net =
     \<lparr>urlopen = net, codecs = narrow_codecs, urlparse = py_urlparse, str_of = scalar_str\<rparr>"

text \<open>A server that answers every HEAD request with \<open>h\<close> and every GET request with \<open>g\<close>.\<close>

definition by_method ::
  "outcome \<Rightarrow> outcome \<Rightarrow> trace \<Rightarrow> string \<Rightarrow> string \<Rightarrow> real \<Rightarrow> int \<Rightarrow> outcome" where
  "by_method h g tr meth url timeout max_body_bytes = (if meth = ''GET'' then g else h)"

definition ascii_bytes :: "string \<Rightarrow> bytes" where
  "ascii_bytes s = map of_char s"

definition timed_out :: outcome where
  "timed_out = NetworkError ''TimeoutError'' ''timed out''"

definition plain_200 :: outcome where
  "plain_200 = Response 200 ''https://example.com/a'' (Some ''text/plain'') (ascii_bytes ''hello'')"

definition html_200 :: "string \<Rightarrow> outcome" where
  "html_200 page =
     Response 200 ''https://example.com/a'' (Some ''text/html; charset=latin-1'') (ascii_bytes page)"

definition status_only :: "int \<Rightarrow> outcome" where
  "status_only code = HTTPError code (Some ''https://example.com/a'') None (Some [])"

text \<open>A server that answers every request with status 200 and a plain text, without redirect.\<close>

definition plain_server :: "trace \<Rightarrow> string \<Rightarrow> string \<Rightarrow> real \<Rightarrow> int \<Rightarrow> outcome" where
  "plain_server tr meth url timeout max_body_bytes = Response 200 url (Some ''text/plain'') []"

text \<open>The default arguments of the script, and the same without retries.\<close>

definition demo_args :: args where
  "demo_args =
     \<lparr>arg_retries = 2, arg_retry_delay = 1, arg_timeout = 12, arg_max_body_bytes = 131072\<rparr>"

definition no_retry_args :: args where
  "no_retry_args =
     \<lparr>arg_retries = 0, arg_retry_delay = 1, arg_timeout = 12, arg_max_body_bytes = 131072\<rparr>"

text \<open>
  A dataset of two rules. The first cites two valid URLs (one with surrounding spaces), the
  entry \<^verbatim>\<open>ftp://example.com/x\<close> twice, a blank entry and a number; the second cites the two
  valid URLs again.
\<close>

definition demo_rule1 :: json where
  "demo_rule1 =
     JObj [(''id'', JStr ''R1''),
           (''evidence'', JObj [(''source_urls'',
              JArr [JStr ''https://b.example/x'', JStr ''ftp://example.com/x'', JStr ''  '',
                    JNum 3, JStr ''ftp://example.com/x'', JStr '' https://a.example/doc ''])])]"

definition demo_rule2 :: json where
  "demo_rule2 =
     JObj [(''id'', JStr ''R2''),
           (''evidence'', JObj [(''source_urls'',
              JArr [JStr ''https://a.example/doc'', JStr ''https://b.example/x''])])]"

definition demo_data :: json where
  "demo_data = JObj [(''rules'', JArr [demo_rule1, demo_rule2])]"

text \<open>A dataset whose only entry has a port and no host.\<close>

definition port_only_data :: json where
  "port_only_data =
     JObj [(''rules'', JArr [JObj [(''id'', JStr ''R1''),
        (''evidence'', JObj [(''source_urls'', JArr [JStr ''http://:80/x''])])]])]"

text \<open>The trace of \<^verbatim>\<open>main\<close> on \<open>demo_data\<close> when every URL answers with a plain text.\<close>

definition demo_report :: trace where
  "demo_report =
     [Print ''BROKEN [-] parse R1: empty URL entry'',
      Print (''BROKEN [-] parse R1: invalid URL '' @ [CHR 0x27] @ ''ftp://example.com/x''
               @ [CHR 0x27]),
      Print ''BROKEN [-] parse R1: non-string URL entry'',
      Request ''HEAD'' ''https://a.example/doc'',
      Print ''OK     [200] HEAD https://a.example/doc'',
      Request ''HEAD'' ''https://b.example/x'',
      Print ''OK     [200] HEAD https://b.example/x'',
      Print ''Summary: checked=5 ok=2 broken=3'']"

subsection \<open>The specification's wording, for comparison\<close>

text \<open>
  Modelled from the spec: ``decode its body using the charset declared in its content-type
  header, falling back to UTF-8 then Latin-1 on decode failure''. \<open>strict name raw\<close> is the
  text of \<open>raw\<close> in the charset \<open>name\<close>, and \<open>None\<close> when decoding fails; the result is that
  of the first charset in the order declared, UTF-8, Latin-1 in which decoding succeeds.
\<close>

fun first_some :: "'a option list \<Rightarrow> 'a option" where
  "first_some [] = None"
| "first_some (None # xs) = first_some xs"
| "first_some (Some x # xs) = Some x"

definition spec_decode_body ::
  "(string \<Rightarrow> bytes \<Rightarrow> 'c list option) \<Rightarrow> bytes \<Rightarrow> string \<Rightarrow> 'c list option" where
  "spec_decode_body strict raw ctype =
     (let declared =
            (case re_search_group CHARSET_RE ctype of
               Some g \<Rightarrow> [strip_chars [CHR 0x22, CHR 0x27] g]
             | None \<Rightarrow> [])
      in first_some (map (\<lambda>name. strict name raw) (declared @ [''utf-8'', ''latin-1''])))"

definition python_strict :: "string \<Rightarrow> bytes \<Rightarrow> nat list option" where
  "python_strict name raw =
     (if name = ''utf-8'' then utf8_strict raw
      else if name = ''latin-1'' then Some (latin1_decode raw)
      else None)"

text \<open>
  \<^verbatim>\<open>pattern.findall(s)\<close> for a pattern with one group: the group texts of the successive
  non-overlapping matches.
\<close>

function re_findall_group :: "grouped_re \<Rightarrow> string \<Rightarrow> string list" where
  "re_findall_group g [] = (case match_group g [] of [] \<Rightarrow> [] | x # xs \<Rightarrow> [fst x])"
| "re_findall_group g (c # cs) =
     (case match_group g (c # cs) of
        [] \<Rightarrow> re_findall_group g cs
      | x # xs \<Rightarrow>
          if length (snd x) < length (c # cs) then fst x # re_findall_group g (snd x)
          else fst x # re_findall_group g cs)"
  by pat_completeness auto
termination
  by (relation "measure (\<lambda>(g, s). length s)") auto

text \<open>
  Modelled from the spec: the rules of the heuristic are ``checked in order,
  case-insensitive, with all embedded tags stripped and whitespace collapsed to single
  spaces before matching''. \<open>element_texts name html\<close> lists the texts of the elements
  \<open>name\<close> of \<open>html\<close>, normalised in this way.
\<close>

definition element_texts :: "string \<Rightarrow> string \<Rightarrow> string list" where
  "element_texts name html =
     map (\<lambda>g. normalize_spaces (lower (re_sub TAG_RE '' '' g)))
       (re_findall_group
          (Seq (lit_ci (''<'' @ name)) (Seq (Star not_gt) (chr CHR ''>'')),
           LazyStar any_char,
           lit_ci (''</'' @ name @ ''>''))
          html)"

definition NOT_FOUND_PHRASES :: "string set" where
  "NOT_FOUND_PHRASES = {''404'', ''404 not found'', ''page not found'', ''not found''}"

definition spec_not_found_heuristic :: "string \<Rightarrow> string option" where
  "spec_not_found_heuristic html =
     (if list_ex (\<lambda>t. contains ''404'' t \<and> contains ''not found'' t) (element_texts ''title'' html)
      then Some ''title indicates 404''
      else if list_ex (\<lambda>t. contains ''page not found'' t) (element_texts ''title'' html)
      then Some ''title indicates missing page''
      else if list_ex (\<lambda>t. t \<in> NOT_FOUND_PHRASES) (element_texts ''h1'' html)
      then Some ''h1 indicates missing page''
      else None)"

section \<open>Properties\<close>

subsection \<open>Probes and their verdicts\<close>

lemma fetch_trace: "snd (fetch e url meth t m tr) = tr @ [Request meth url]"
  by (simp add: fetch_def Let_def split: outcome.splits)

lemma fetch_method: "method (fst (fetch e url meth t m tr)) = meth"
  by (simp add: fetch_def Let_def split: outcome.splits)

lemma evaluate_probe_method: "method (evaluate_probe p) = method p"
  by (simp add: evaluate_probe_def split: option.splits)

lemma evaluate_probe_no_status:
  "status p = None \<Longrightarrow> evaluate_probe p =
     \<lparr>status = None, method = method p, final_url = final_url p,
      ok = False, detail = or_else (error p) ''network failure'', retryable = True\<rparr>"
  by (simp add: evaluate_probe_def)

lemma evaluate_probe_error_status:
  "status p = Some st \<Longrightarrow> st \<ge> 400 \<Longrightarrow> evaluate_probe p =
     \<lparr>status = Some st, method = method p, final_url = final_url p,
      ok = False, detail = or_else (error p) (''HTTP '' @ str_int st),
      retryable = (st \<in> RETRYABLE_STATUSES)\<rparr>"
  by (simp add: evaluate_probe_def)

lemma evaluate_probe_ok_status:
  "ok (evaluate_probe p) \<Longrightarrow> \<exists>st. status p = Some st \<and> st < 400"
  by (auto simp add: evaluate_probe_def split: option.splits if_splits)

lemma fetch_no_status_error:
  "status (fst (fetch e url meth t m tr)) = None \<Longrightarrow>
   \<exists>d. error (fst (fetch e url meth t m tr)) = Some d \<and> d \<noteq> []"
  by (auto simp add: fetch_def Let_def split: outcome.splits)

lemma fetch_response:
  "urlopen e tr meth url t m = Response code final ctype data \<Longrightarrow>
   fetch e url meth t m tr =
     (\<lparr>status = Some code, method = meth, final_url = Some final,
       content_type = (case ctype of Some v \<Rightarrow> v | None \<Rightarrow> []),
       body = decode_body (codecs e) (if meth = ''GET'' then data else [])
                (case ctype of Some v \<Rightarrow> v | None \<Rightarrow> []),
       error = None\<rparr>, tr @ [Request meth url])"
  by (simp add: fetch_def Let_def)

lemma fetch_http_error:
  "urlopen e tr meth url t m = HTTPError code final ctype data \<Longrightarrow>
   fetch e url meth t m tr =
     (\<lparr>status = Some code, method = meth,
       final_url = Some (case final of Some u \<Rightarrow> u | None \<Rightarrow> url),
       content_type = (case ctype of Some v \<Rightarrow> v | None \<Rightarrow> []),
       body = decode_body (codecs e)
                (if meth = ''GET'' then (case data of Some d \<Rightarrow> d | None \<Rightarrow> []) else [])
                (case ctype of Some v \<Rightarrow> v | None \<Rightarrow> []),
       error = Some (''HTTP '' @ str_int code)\<rparr>, tr @ [Request meth url])"
  by (simp add: fetch_def Let_def)

lemma fetch_network_error:
  "urlopen e tr meth url t m = NetworkError name reason \<Longrightarrow>
   fetch e url meth t m tr =
     (\<lparr>status = None, method = meth, final_url = None, content_type = [], body = [],
       error = Some (name @ '': '' @ reason)\<rparr>, tr @ [Request meth url])"
  by (simp add: fetch_def)

lemma decode_body_empty: "decode_body reg [] ctype = []"
  by (simp add: decode_body_def)

subsection \<open>Facts about the example environments\<close>

lemma demo_urlopen_head: "urlopen (demo_env (by_method h g)) tr ''HEAD'' url t m = h"
  by (simp add: demo_env_def by_method_def)

lemma demo_urlopen_get: "urlopen (demo_env (by_method h g)) tr ''GET'' url t m = g"
  by (simp add: demo_env_def by_method_def)

lemma demo_codecs: "codecs (demo_env net) = narrow_codecs"
  by (simp add: demo_env_def)

lemma unat_of_char: "unat (of_char c :: 8 word) = of_char c"
proof -
  have "(of_char c :: 8 word) = of_nat (of_char c)" by (simp only: of_nat_of_char)
  then have "unat (of_char c :: 8 word) = (of_char c :: nat) mod 256"
    by (simp only: unat_of_nat) simp
  then show ?thesis by (simp add: of_char_mod_256)
qed

lemma latin1_ascii_bytes: "latin1 narrow_codecs (ascii_bytes s) = s"
  by (simp add: narrow_codecs_def ascii_bytes_def o_def unat_of_char)

lemma ascii_bytes_empty: "ascii_bytes s = [] \<longleftrightarrow> s = []"
  by (simp add: ascii_bytes_def)

lemma charset_latin1: "re_search_group CHARSET_RE ''text/html; charset=latin-1'' = Some ''latin-1''"
  by code_simp

lemma strip_latin1: "strip_chars [CHR 0x22, CHR 0x27] ''latin-1'' = ''latin-1''"
  by code_simp

lemma decode_latin1_page:
  "decode_body narrow_codecs (ascii_bytes page) ''text/html; charset=latin-1'' = page"
  by (cases "page = []")
     (simp_all add: decode_body_def ascii_bytes_empty charset_latin1 strip_latin1 codec_lookup_def
        latin1_ascii_bytes del: re_search_group.simps)

lemma is_html_examples:
  "is_html ''text/html; charset=latin-1''" "\<not> is_html ''text/plain''" "\<not> is_html []"
  by code_simp+

lemma str_int_examples:
  "str_int 200 = ''200''" "str_int 404 = ''404''" "str_int 405 = ''405''" "str_int 503 = ''503''"
  by code_simp+

lemma fetch_plain:
  "urlopen e tr meth url t m = plain_200 \<Longrightarrow>
   fst (fetch e url meth t m tr) =
     \<lparr>status = Some 200, method = meth, final_url = Some ''https://example.com/a'',
      content_type = ''text/plain'',
      body = decode_body (codecs e) (if meth = ''GET'' then ascii_bytes ''hello'' else [])
               ''text/plain'',
      error = None\<rparr>"
  by (simp add: fetch_response plain_200_def)

lemma fetch_html:
  "urlopen e tr meth url t m = html_200 page \<Longrightarrow> codecs e = narrow_codecs \<Longrightarrow>
   fst (fetch e url meth t m tr) =
     \<lparr>status = Some 200, method = meth, final_url = Some ''https://example.com/a'',
      content_type = ''text/html; charset=latin-1'',
      body = (if meth = ''GET'' then page else []),
      error = None\<rparr>"
  by (simp add: fetch_response html_200_def decode_latin1_page decode_body_empty)

lemma fetch_status_only:
  "urlopen e tr meth url t m = status_only code \<Longrightarrow>
   fst (fetch e url meth t m tr) =
     \<lparr>status = Some code, method = meth, final_url = Some ''https://example.com/a'',
      content_type = [], body = [], error = Some (''HTTP '' @ str_int code)\<rparr>"
  by (simp add: fetch_http_error status_only_def decode_body_empty)

lemma fetch_timed_out:
  "urlopen e tr meth url t m = timed_out \<Longrightarrow>
   fst (fetch e url meth t m tr) =
     \<lparr>status = None, method = meth, final_url = None, content_type = [], body = [],
      error = Some ''TimeoutError: timed out''\<rparr>"
  by (simp add: fetch_network_error timed_out_def)

subsection \<open>Classification of a probe\<close>

text \<open>
  C3. For every probe, \<^verbatim>\<open>evaluate_probe\<close> classifies the failures as follows. Without a status
  code the verdict is a failure, is retryable, and its detail is the probe's error
  description (whenever the probe has one; every probe that \<^verbatim>\<open>fetch\<close> returns without a
  status has one). With a status of 400 or more the verdict is a failure, and it is
  retryable exactly when the status is one of 408, 429, 500, 502, 503, 504.
\<close>

theorem evaluate_probe_failures:
  "(status probe = None \<longrightarrow>
      \<not> ok (evaluate_probe probe) \<and> retryable (evaluate_probe probe)
      \<and> (\<forall>d. error probe = Some d \<and> d \<noteq> [] \<longrightarrow> detail (evaluate_probe probe) = d))
   \<and> (\<forall>st. status probe = Some st \<and> st \<ge> 400 \<longrightarrow>
         \<not> ok (evaluate_probe probe)
         \<and> (retryable (evaluate_probe probe) \<longleftrightarrow> st \<in> {408, 429, 500, 502, 503, 504}))
   \<and> (status (fst (fetch e url meth t m tr)) = None \<longrightarrow>
         (\<exists>d. error (fst (fetch e url meth t m tr)) = Some d \<and> d \<noteq> []
              \<and> detail (evaluate_probe (fst (fetch e url meth t m tr))) = d))"
proof (intro conjI impI allI)
  assume "status probe = None"
  then show "\<not> ok (evaluate_probe probe)" "retryable (evaluate_probe probe)"
    by (simp_all add: evaluate_probe_no_status)
next
  fix d assume "status probe = None" "error probe = Some d \<and> d \<noteq> []"
  then show "detail (evaluate_probe probe) = d"
    by (simp add: evaluate_probe_no_status or_else_def)
next
  fix st assume "status probe = Some st \<and> 400 \<le> st"
  then show "\<not> ok (evaluate_probe probe)"
    "retryable (evaluate_probe probe) \<longleftrightarrow> st \<in> {408, 429, 500, 502, 503, 504}"
    by (simp_all add: evaluate_probe_error_status RETRYABLE_STATUSES_def)
next
  assume a: "status (fst (fetch e url meth t m tr)) = None"
  from fetch_no_status_error [OF a] obtain d where
    d: "error (fst (fetch e url meth t m tr)) = Some d" "d \<noteq> []" by blast
  with a show "\<exists>d. error (fst (fetch e url meth t m tr)) = Some d \<and> d \<noteq> []
              \<and> detail (evaluate_probe (fst (fetch e url meth t m tr))) = d"
    by (simp add: evaluate_probe_no_status or_else_def)
qed

theorem evaluate_probe_failures_witness:
  "\<not> ok (evaluate_probe
          \<lparr>status = None, method = ''HEAD'', final_url = None, content_type = [], body = [],
           error = Some ''TimeoutError: timed out''\<rparr>)
   \<and> retryable (evaluate_probe
          \<lparr>status = None, method = ''HEAD'', final_url = None, content_type = [], body = [],
           error = Some ''TimeoutError: timed out''\<rparr>)
   \<and> detail (evaluate_probe
          \<lparr>status = None, method = ''HEAD'', final_url = None, content_type = [], body = [],
           error = Some ''TimeoutError: timed out''\<rparr>) = ''TimeoutError: timed out''
   \<and> \<not> ok (evaluate_probe
          \<lparr>status = Some 503, method = ''GET'', final_url = Some ''https://example.com/a'',
           content_type = ''text/html'', body = [], error = Some ''HTTP 503''\<rparr>)
   \<and> retryable (evaluate_probe
          \<lparr>status = Some 503, method = ''GET'', final_url = Some ''https://example.com/a'',
           content_type = ''text/html'', body = [], error = Some ''HTTP 503''\<rparr>)
   \<and> \<not> ok (evaluate_probe
          \<lparr>status = Some 404, method = ''GET'', final_url = Some ''https://example.com/a'',
           content_type = ''text/html'', body = [], error = Some ''HTTP 404''\<rparr>)
   \<and> \<not> retryable (evaluate_probe
          \<lparr>status = Some 404, method = ''GET'', final_url = Some ''https://example.com/a'',
           content_type = ''text/html'', body = [], error = Some ''HTTP 404''\<rparr>)"
  using
    evaluate_probe_failures [of
      "\<lparr>status = None, method = ''HEAD'', final_url = None, content_type = [], body = [],
        error = Some ''TimeoutError: timed out''\<rparr>"
      "demo_env (by_method timed_out timed_out)" "''https://example.com/a''" "''HEAD''" 12 131072 "[]"]
    evaluate_probe_failures [of
      "\<lparr>status = Some 503, method = ''GET'', final_url = Some ''https://example.com/a'',
        content_type = ''text/html'', body = [], error = Some ''HTTP 503''\<rparr>"
      "demo_env (by_method timed_out timed_out)" "''https://example.com/a''" "''HEAD''" 12 131072 "[]"]
    evaluate_probe_failures [of
      "\<lparr>status = Some 404, method = ''GET'', final_url = Some ''https://example.com/a'',
        content_type = ''text/html'', body = [], error = Some ''HTTP 404''\<rparr>"
      "demo_env (by_method timed_out timed_out)" "''https://example.com/a''" "''HEAD''" 12 131072 "[]"]
  by simp

text \<open>
  C5. When the HEAD probe of a URL yields a successful verdict and its content type is not
  HTML, \<^verbatim>\<open>check_once\<close> returns the HEAD verdict and issues exactly one request, the HEAD
  request: no GET request follows.
\<close>

theorem check_once_head_only:
  "ok (evaluate_probe (fst (fetch e url ''HEAD'' t m tr))) \<Longrightarrow>
   \<not> is_html (content_type (fst (fetch e url ''HEAD'' t m tr))) \<Longrightarrow>
   check_once e url t m tr
     = (evaluate_probe (fst (fetch e url ''HEAD'' t m tr)), tr @ [Request ''HEAD'' url])"
  using fetch_trace [of e url "''HEAD''" t m tr]
  by (simp add: check_once_def Let_def split_beta)

lemma fetch_plain_head:
  "fst (fetch (demo_env (by_method plain_200 g)) url ''HEAD'' t m tr)
     = \<lparr>status = Some 200, method = ''HEAD'', final_url = Some ''https://example.com/a'',
        content_type = ''text/plain'', body = [], error = None\<rparr>"
  by (simp add: fetch_def demo_env_def by_method_def plain_200_def decode_body_def)

lemma not_html_plain: "\<not> is_html ''text/plain''"
  by code_simp

theorem check_once_head_only_witness:
  "check_once (demo_env (by_method plain_200 plain_200)) ''https://example.com/a'' 12 131072 []
     = (\<lparr>status = Some 200, method = ''HEAD'', final_url = Some ''https://example.com/a'',
         ok = True, detail = ''ok'', retryable = False\<rparr>,
        [Request ''HEAD'' ''https://example.com/a''])"
  using check_once_head_only [of "demo_env (by_method plain_200 plain_200)"
      "''https://example.com/a''" 12 131072 "[]"]
  by (simp add: fetch_plain_head not_html_plain evaluate_probe_def)

subsection \<open>One attempt: HEAD, then GET where needed\<close>

lemma check_once_cases:
  fixes e url t m tr
  defines "head_probe \<equiv> fst (fetch e url ''HEAD'' t m tr)"
  defines "head_verdict \<equiv> evaluate_probe head_probe"
    and "get_probe \<equiv> fst (fetch e url ''GET'' t m (tr @ [Request ''HEAD'' url]))"
  defines "get_verdict \<equiv> evaluate_probe get_probe"
  shows "check_once e url t m tr =
      (if ok head_verdict \<and> \<not> is_html (content_type head_probe)
       then (head_verdict, tr @ [Request ''HEAD'' url])
       else if \<not> ok head_verdict \<and> (\<exists>st. status head_probe = Some st \<and> st \<ge> 400)
               \<and> status get_probe = None
       then (head_verdict, tr @ [Request ''HEAD'' url, Request ''GET'' url])
       else (get_verdict\<lparr>method := (if ok head_verdict then ''GET (verify-html)''
                                      else ''GET (fallback)'')\<rparr>,
             tr @ [Request ''HEAD'' url, Request ''GET'' url]))"
proof -
  define tr1 where "tr1 = snd (fetch e url ''HEAD'' t m tr)"
  have tr1: "tr1 = tr @ [Request ''HEAD'' url]"
    by (simp add: tr1_def fetch_trace)
  have gp: "get_probe = fst (fetch e url ''GET'' t m tr1)"
    by (simp add: get_probe_def tr1)
  have tr2: "snd (fetch e url ''GET'' t m tr1) = tr @ [Request ''HEAD'' url, Request ''GET'' url]"
    by (simp add: fetch_trace tr1)
  have gm: "method get_verdict = ''GET''"
    by (simp add: get_verdict_def get_probe_def evaluate_probe_method fetch_method)
  have hok: "ok head_verdict \<Longrightarrow> \<exists>st. status head_probe = Some st \<and> st < 400"
    unfolding head_verdict_def by (rule evaluate_probe_ok_status)
  have gno: "status get_probe = None \<Longrightarrow> \<not> ok get_verdict"
    by (simp add: get_verdict_def evaluate_probe_no_status)
  show ?thesis
  proof (cases "ok head_verdict \<and> \<not> is_html (content_type head_probe)")
    case True
    then show ?thesis
      using tr1 by (simp add: check_once_def Let_def split_beta head_verdict_def
          head_probe_def tr1_def)
  next
    case False
    show ?thesis
    proof (cases "ok head_verdict")
      case True
      with hok obtain st where st: "status head_probe = Some st" "st < 400" by blast
      from True False st gm tr2 show ?thesis
        by (simp add: check_once_def Let_def split_beta head_verdict_def [symmetric]
            head_probe_def [symmetric] tr1_def [symmetric] gp [symmetric]
            get_verdict_def [symmetric])
    next
      case nok: False
      show ?thesis
      proof (cases "status head_probe")
        case None
        with nok gm tr2 show ?thesis
          by (simp add: check_once_def Let_def split_beta head_verdict_def [symmetric]
              head_probe_def [symmetric] tr1_def [symmetric] gp [symmetric]
              get_verdict_def [symmetric])
      next
        case (Some st)
        with nok gm tr2 gno show ?thesis
          by (auto simp add: check_once_def Let_def split_beta head_verdict_def [symmetric]
              head_probe_def [symmetric] tr1_def [symmetric] gp [symmetric]
              get_verdict_def [symmetric])
      qed
    qed
  qed
qed

text \<open>
  C1. In \<^verbatim>\<open>check_once\<close>: when the HEAD verdict is not successful or the HEAD content type is
  HTML, a GET request follows the HEAD request. If the HEAD verdict was successful, the
  GET verdict is returned with the method \<^verbatim>\<open>GET (verify-html)\<close>. If the HEAD probe has a
  status of 400 or more and the GET probe has no status, the HEAD verdict is returned. In
  every other case with a failed HEAD verdict the GET verdict is returned with the method
  \<^verbatim>\<open>GET (fallback)\<close>.
\<close>

theorem check_once_tie_break:
  fixes e url t m tr
  defines "head_probe \<equiv> fst (fetch e url ''HEAD'' t m tr)"
    and "tr1 \<equiv> snd (fetch e url ''HEAD'' t m tr)"
  defines "head_verdict \<equiv> evaluate_probe head_probe"
    and "get_probe \<equiv> fst (fetch e url ''GET'' t m tr1)"
  defines "get_verdict \<equiv> evaluate_probe get_probe"
  shows
    "(\<not> ok head_verdict \<or> is_html (content_type head_probe) \<longrightarrow>
        snd (check_once e url t m tr) = tr @ [Request ''HEAD'' url, Request ''GET'' url])
     \<and> (ok head_verdict \<and> is_html (content_type head_probe) \<longrightarrow>
        fst (check_once e url t m tr) = get_verdict\<lparr>method := ''GET (verify-html)''\<rparr>)
     \<and> ((\<exists>st. status head_probe = Some st \<and> st \<ge> 400) \<and> status get_probe = None \<longrightarrow>
        fst (check_once e url t m tr) = head_verdict)
     \<and> (\<not> ok head_verdict
        \<and> \<not> ((\<exists>st. status head_probe = Some st \<and> st \<ge> 400) \<and> status get_probe = None) \<longrightarrow>
        fst (check_once e url t m tr) = get_verdict\<lparr>method := ''GET (fallback)''\<rparr>)"
proof -
  have tr1: "tr1 = tr @ [Request ''HEAD'' url]"
    by (simp add: tr1_def fetch_trace)
  have hok: "ok head_verdict \<Longrightarrow> \<exists>st. status head_probe = Some st \<and> st < 400"
    unfolding head_verdict_def by (rule evaluate_probe_ok_status)
  have herr: "\<And>st. status head_probe = Some st \<Longrightarrow> st \<ge> 400 \<Longrightarrow> \<not> ok head_verdict"
    by (simp add: head_verdict_def evaluate_probe_error_status)
  have cases: "check_once e url t m tr =
      (if ok head_verdict \<and> \<not> is_html (content_type head_probe)
       then (head_verdict, tr @ [Request ''HEAD'' url])
       else if \<not> ok head_verdict \<and> (\<exists>st. status head_probe = Some st \<and> st \<ge> 400)
               \<and> status get_probe = None
       then (head_verdict, tr @ [Request ''HEAD'' url, Request ''GET'' url])
       else (get_verdict\<lparr>method := (if ok head_verdict then ''GET (verify-html)''
                                      else ''GET (fallback)'')\<rparr>,
             tr @ [Request ''HEAD'' url, Request ''GET'' url]))"
    unfolding head_verdict_def head_probe_def get_verdict_def get_probe_def tr1
    by (rule check_once_cases)
  show ?thesis
    using hok herr by (auto simp add: cases)
qed

lemma heuristic_404_page:
  "not_found_heuristic ''<html><head><title>404 Not Found</title></head></html>''
     = Some ''HTML title indicates 404''"
  by code_simp

theorem check_once_tie_break_witness:
  "check_once
     (demo_env (by_method (html_200 [])
        (html_200 ''<html><head><title>404 Not Found</title></head></html>'')))
     ''https://example.com/a'' 12 131072 []
     = (\<lparr>status = Some 200, method = ''GET (verify-html)'',
         final_url = Some ''https://example.com/a'',
         ok = False, detail = ''HTML title indicates 404'', retryable = False\<rparr>,
        [Request ''HEAD'' ''https://example.com/a'', Request ''GET'' ''https://example.com/a''])
   \<and> fst (check_once (demo_env (by_method (status_only 404) timed_out))
            ''https://example.com/a'' 12 131072 [])
     = \<lparr>status = Some 404, method = ''HEAD'', final_url = Some ''https://example.com/a'',
        ok = False, detail = ''HTTP 404'', retryable = False\<rparr>
   \<and> fst (check_once (demo_env (by_method (status_only 405) plain_200))
            ''https://example.com/a'' 12 131072 [])
     = \<lparr>status = Some 200, method = ''GET (fallback)'',
        final_url = Some ''https://example.com/a'',
        ok = True, detail = ''ok'', retryable = False\<rparr>"
  using
    check_once_tie_break [of "demo_env (by_method (html_200 [])
        (html_200 ''<html><head><title>404 Not Found</title></head></html>''))"
      "''https://example.com/a''" 12 131072 "[]"]
    check_once_tie_break [of "demo_env (by_method (status_only 404) timed_out)"
      "''https://example.com/a''" 12 131072 "[]"]
    check_once_tie_break [of "demo_env (by_method (status_only 405) plain_200)"
      "''https://example.com/a''" 12 131072 "[]"]
  by (simp add: fetch_html fetch_status_only fetch_timed_out fetch_plain demo_urlopen_head
      demo_urlopen_get demo_codecs fetch_trace evaluate_probe_def is_html_examples
      heuristic_404_page str_int_examples or_else_def RETRYABLE_STATUSES_def prod_eq_iff)

subsection \<open>The retry loop\<close>

lemma head_requests_append [simp]:
  "head_requests (xs @ ys) = head_requests xs + head_requests ys"
  by (simp add: head_requests_def)

lemma sleeps_append [simp]: "sleeps (xs @ ys) = sleeps xs @ sleeps ys"
  by (simp add: sleeps_def)

lemma check_once_trace:
  "snd (check_once e url t m tr) = tr @ [Request ''HEAD'' url]
   \<or> snd (check_once e url t m tr) = tr @ [Request ''HEAD'' url, Request ''GET'' url]"
  by (simp add: check_once_cases)





lemma retry_loop_stops:
  assumes "j \<le> k" and "int k + 1 \<le> attempts"
    and "\<forall>i. j \<le> i \<and> i < k \<longrightarrow>
           \<not> ok (verdict_of e url d t m tr i) \<and> retryable (verdict_of e url d t m tr i)"
    and "ok (verdict_of e url d t m tr k) \<or> \<not> retryable (verdict_of e url d t m tr k)
         \<or> int k + 1 = attempts"
  shows "retry_loop e url d t m attempts (int j + 1) result (trace_before e url d t m tr j)
           = ((verdict_of e url d t m tr k, int k + 1), trace_after e url d t m tr k)"
  using assms
proof (induction "k - j" arbitrary: j result)
  case 0
  then have jk: "j = k" by simp
  obtain v tr' where c: "check_once e url t m (trace_before e url d t m tr k) = (v, tr')"
    by (cases "check_once e url t m (trace_before e url d t m tr k)")
  then have v: "verdict_of e url d t m tr k = v" "trace_after e url d t m tr k = tr'"
    by (simp_all add: verdict_of_def trace_after_def)
  from 0 jk show ?case
    by (subst retry_loop.simps) (auto simp add: c v)
next
  case (Suc n)
  then have jk: "j < k" by simp
  obtain v tr' where c: "check_once e url t m (trace_before e url d t m tr j) = (v, tr')"
    by (cases "check_once e url t m (trace_before e url d t m tr j)")
  then have v: "verdict_of e url d t m tr j = v"
    by (simp_all add: verdict_of_def)
  from Suc.prems jk have fail: "\<not> ok v" "retryable v"
    using v by auto
  have ih: "retry_loop e url d t m attempts (int (Suc j) + 1) v (trace_before e url d t m tr (Suc j))
           = ((verdict_of e url d t m tr k, int k + 1), trace_after e url d t m tr k)"
    using Suc.hyps(2) Suc.prems jk by (intro Suc.hyps(1)) auto
  have lt: "int j + 1 < attempts" "\<not> int j + 1 > attempts"
    using Suc.prems(2) jk by auto
  have "retry_loop e url d t m attempts (int j + 1) result (trace_before e url d t m tr j)
        = retry_loop e url d t m attempts (int j + 1 + 1) v
            (tr' @ [Sleep (d * of_int (int j + 1))])"
    by (subst retry_loop.simps) (simp only: c fail lt split_conv Let_def if_True if_False simp_thms)
  also have "\<dots> = retry_loop e url d t m attempts (int (Suc j) + 1) v
                    (trace_before e url d t m tr (Suc j))"
    by (simp add: c)
  also note ih
  finally show ?case .
qed

lemma retry_stop_exists:
  assumes "0 \<le> retries"
  obtains k where "int k \<le> retries"
    and "\<forall>i<k. \<not> ok (verdict_of e url d t m tr i) \<and> retryable (verdict_of e url d t m tr i)"
    and "ok (verdict_of e url d t m tr k) \<or> \<not> retryable (verdict_of e url d t m tr k)
         \<or> int k = retries"
proof -
  define P where "P k \<longleftrightarrow> ok (verdict_of e url d t m tr k)
      \<or> \<not> retryable (verdict_of e url d t m tr k) \<or> int k = retries" for k
  have ex: "P (nat retries)" using assms by (simp add: P_def)
  define k where "k = (LEAST k. P k)"
  have Pk: "P k" unfolding k_def using ex by (rule LeastI)
  have least: "\<And>i. i < k \<Longrightarrow> \<not> P i" unfolding k_def by (rule not_less_Least)
  have "k \<le> nat retries" unfolding k_def using ex by (rule Least_le)
  then have "int k \<le> retries" using assms by simp
  moreover have "\<forall>i<k. \<not> ok (verdict_of e url d t m tr i) \<and> retryable (verdict_of e url d t m tr i)"
    using least by (auto simp add: P_def)
  ultimately show ?thesis using that Pk by (simp add: P_def)
qed

lemma check_with_retries_stops:
  assumes "int k \<le> retries"
    and "\<forall>i<k. \<not> ok (verdict_of e url d t m tr i) \<and> retryable (verdict_of e url d t m tr i)"
    and "ok (verdict_of e url d t m tr k) \<or> \<not> retryable (verdict_of e url d t m tr k)
         \<or> int k = retries"
  shows "check_with_retries e url retries d t m tr
           = ((verdict_of e url d t m tr k, int k + 1), trace_after e url d t m tr k)"
proof -
  have "retry_loop e url d t m (retries + 1) (int 0 + 1)
          \<lparr>status = None, method = ''HEAD'', final_url = None,
           ok = False, detail = ''uninitialized'', retryable = True\<rparr>
          (trace_before e url d t m tr 0)
        = ((verdict_of e url d t m tr k, int k + 1), trace_after e url d t m tr k)"
    using assms by (intro retry_loop_stops) auto
  then show ?thesis by (simp add: check_with_retries_def)
qed




lemma check_once_timed_out:
  "check_once (demo_env (by_method timed_out timed_out)) url t m tr
     = (\<lparr>status = None, method = ''GET (fallback)'', final_url = None,
         ok = False, detail = ''TimeoutError: timed out'', retryable = True\<rparr>,
        tr @ [Request ''HEAD'' url, Request ''GET'' url])"
  by (simp add: check_once_cases fetch_timed_out demo_urlopen_head demo_urlopen_get
      evaluate_probe_def or_else_def)



text \<open>With a negative \<open>retries\<close> the loop body never runs and no request is made.\<close>

lemma check_with_retries_negative:
  "retries < 0 \<Longrightarrow>
   check_with_retries e url retries d t m tr
     = ((\<lparr>status = None, method = ''HEAD'', final_url = None,
          ok = False, detail = ''uninitialized'', retryable = True\<rparr>, retries + 1), tr)"
  by (subst check_with_retries_def, subst retry_loop.simps) (simp add: Let_def)

subsection \<open>Extraction\<close>

lemma scan_entries_sets:
  "scan_entries up f rule es (U, I) = Inr (U', I') \<Longrightarrow>
     U' = U \<union> {u. \<exists>raw \<in> set es. classify_entry up f rule raw = Valid u}
   \<and> I' = I \<union> {d. \<exists>raw \<in> set es. classify_entry up f rule raw = Invalid d}"
proof (induction es arbitrary: U I)
  case Nil
  then show ?case by simp
next
  case (Cons raw es)
  show ?case
  proof (cases "classify_entry up f rule raw")
    case (Valid u)
    with Cons.prems have "scan_entries up f rule es (insert u U, I) = Inr (U', I')" by simp
    from Cons.IH [OF this] Valid show ?thesis by auto
  next
    case (Invalid d)
    with Cons.prems have "scan_entries up f rule es (U, insert d I) = Inr (U', I')" by simp
    from Cons.IH [OF this] Invalid show ?thesis by auto
  next
    case (Raises err)
    with Cons.prems show ?thesis by simp
  qed
qed

lemma scan_rules_sets:
  "scan_rules up f rs (U, I) = Inr (U', I') \<Longrightarrow>
     (\<forall>rule \<in> set rs. \<exists>es. rule_entries rule = Inr es)
   \<and> U' = U \<union> {u. \<exists>rule \<in> set rs. \<exists>es. rule_entries rule = Inr es
                  \<and> (\<exists>raw \<in> set es. classify_entry up f rule raw = Valid u)}
   \<and> I' = I \<union> {d. \<exists>rule \<in> set rs. \<exists>es. rule_entries rule = Inr es
                  \<and> (\<exists>raw \<in> set es. classify_entry up f rule raw = Invalid d)}"
proof (induction rs arbitrary: U I)
  case Nil
  then show ?case by simp
next
  case (Cons rule rs)
  from Cons.prems obtain es where es: "rule_entries rule = Inr es"
    by (auto split: sum.splits)
  with Cons.prems obtain U1 I1 where
    s1: "scan_entries up f rule es (U, I) = Inr (U1, I1)"
    and s2: "scan_rules up f rs (U1, I1) = Inr (U', I')"
    by (auto split: sum.splits)
  from scan_entries_sets [OF s1] Cons.IH [OF s2] es show ?case
    by auto
qed

lemma entries_of_set:
  "dataset_rules data = Inr rs \<Longrightarrow> \<forall>rule \<in> set rs. \<exists>es. rule_entries rule = Inr es \<Longrightarrow>
   set (entries_of data) = {(rule, raw). rule \<in> set rs \<and> (\<exists>es. rule_entries rule = Inr es \<and> raw \<in> set es)}"
  by (auto simp add: entries_of_def split: sum.splits) 

lemma finite_valid_urls: "finite (valid_urls up f data)"
proof -
  have "valid_urls up f data \<subseteq>
      (\<lambda>x. case classify_entry up f (fst x) (snd x) of Valid u \<Rightarrow> u | _ \<Rightarrow> [])
        ` set (entries_of data)"
    by (force simp add: valid_urls_def image_iff)
  then show ?thesis by (rule finite_subset) simp
qed

lemma finite_diagnostics: "finite (diagnostics up f data)"
proof -
  have "diagnostics up f data \<subseteq>
      (\<lambda>x. case classify_entry up f (fst x) (snd x) of Invalid d \<Rightarrow> d | _ \<Rightarrow> [])
        ` set (entries_of data)"
    by (force simp add: diagnostics_def image_iff)
  then show ?thesis by (rule finite_subset) simp
qed

lemma load_unique_urls_sets:
  assumes "load_unique_urls up f data = Inr (urls, invalid)"
  shows "urls = sorted_list_of_set (valid_urls up f data)"
    and "invalid = sorted_list_of_set (diagnostics up f data)"
proof -
  from assms obtain rs U I where rs: "dataset_rules data = Inr rs"
    and sc: "scan_rules up f rs ({}, {}) = Inr (U, I)"
    and res: "urls = sorted_list_of_set U" "invalid = sorted_list_of_set I"
    by (auto simp add: load_unique_urls_def split: sum.splits)
  note sets = scan_rules_sets [OF sc]
  from sets have all: "\<forall>rule \<in> set rs. \<exists>es. rule_entries rule = Inr es" by blast
  note eo = entries_of_set [OF rs all]
  have "U = valid_urls up f data"
    using sets by (auto simp add: valid_urls_def eo)
  moreover have "I = diagnostics up f data"
    using sets by (auto simp add: diagnostics_def eo)
  ultimately show "urls = sorted_list_of_set (valid_urls up f data)"
    and "invalid = sorted_list_of_set (diagnostics up f data)"
    using res by simp_all
qed

lemma load_unique_urls_lists:
  assumes "load_unique_urls up f data = Inr (urls, invalid)"
  shows "set urls = valid_urls up f data" "sorted urls" "distinct urls"
    "set invalid = diagnostics up f data" "sorted invalid" "distinct invalid"
  using load_unique_urls_sets [OF assms] finite_valid_urls [of up f data]
    finite_diagnostics [of up f data]
  by simp_all


subsection \<open>The run of \<^verbatim>\<open>main\<close>\<close>

lemma requested_append [simp]: "requested (xs @ ys) = requested xs @ requested ys"
  by (simp add: requested_def)

lemma printed_append [simp]: "printed (xs @ ys) = printed xs @ printed ys"
  by (simp add: printed_def)

lemma printed_Print [simp]: "printed [Print line] = [line]"
  by (simp add: printed_def)

lemma requested_Print [simp]: "requested [Print line] = []"
  by (simp add: requested_def)

lemma printed_map_Print [simp]: "printed (map (\<lambda>x. Print (g x)) xs) = map g xs"
  by (induction xs) (simp_all add: printed_def)

lemma requested_map_Print [simp]: "requested (map (\<lambda>x. Print (g x)) xs) = []"
  by (induction xs) (simp_all add: requested_def)

lemma check_once_requested:
  "\<exists>j. requested (snd (check_once e url t m tr)) = requested tr @ replicate j url"
proof -
  from check_once_trace [of e url t m tr] show ?thesis
  proof
    assume "snd (check_once e url t m tr) = tr @ [Request ''HEAD'' url]"
    then have "requested (snd (check_once e url t m tr)) = requested tr @ replicate 1 url"
      by (simp add: requested_def)
    then show ?thesis by blast
  next
    assume "snd (check_once e url t m tr) = tr @ [Request ''HEAD'' url, Request ''GET'' url]"
    then have "requested (snd (check_once e url t m tr)) = requested tr @ replicate 2 url"
      by (simp add: requested_def numeral_2_eq_2)
    then show ?thesis by blast
  qed
qed

lemma check_once_printed: "printed (snd (check_once e url t m tr)) = printed tr"
  using check_once_trace [of e url t m tr] by (auto simp add: printed_def)

lemma trace_before_requested:
  "\<exists>j. requested (trace_before e url d t m tr k) = requested tr @ replicate j url"
proof (induction k)
  case 0
  have "requested tr = requested tr @ replicate 0 url" by simp
  then show ?case by (simp del: replicate.simps)
next
  case (Suc k)
  then obtain j where j: "requested (trace_before e url d t m tr k) = requested tr @ replicate j url"
    by blast
  obtain i where i: "requested (snd (check_once e url t m (trace_before e url d t m tr k)))
      = requested (trace_before e url d t m tr k) @ replicate i url"
    using check_once_requested by blast
  have "requested (trace_before e url d t m tr (Suc k)) = requested tr @ replicate (j + i) url"
    by (simp add: i j replicate_add, simp add: requested_def)
  then show ?case by blast
qed

lemma trace_before_printed: "printed (trace_before e url d t m tr k) = printed tr"
  by (induction k) (simp_all add: check_once_printed, simp add: printed_def)

lemma check_with_retries_requested:
  "\<exists>j. requested (snd (check_with_retries e url retries d t m tr)) = requested tr @ replicate j url"
proof (cases "retries < 0")
  case True
  have "requested tr = requested tr @ replicate 0 url" by simp
  then show ?thesis
    by (simp add: check_with_retries_negative [OF True] del: replicate.simps)
next
  case False
  then have "0 \<le> retries" by simp
  from retry_stop_exists [OF this, of e url d t m tr] obtain k where k: "int k \<le> retries"
    "\<forall>i<k. \<not> ok (verdict_of e url d t m tr i) \<and> retryable (verdict_of e url d t m tr i)"
    "ok (verdict_of e url d t m tr k) \<or> \<not> retryable (verdict_of e url d t m tr k)
         \<or> int k = retries"
    by blast
  obtain j where j: "requested (trace_before e url d t m tr k) = requested tr @ replicate j url"
    using trace_before_requested by blast
  obtain i where i: "requested (snd (check_once e url t m (trace_before e url d t m tr k)))
      = requested (trace_before e url d t m tr k) @ replicate i url"
    using check_once_requested by blast
  have "requested (snd (check_with_retries e url retries d t m tr))
          = requested tr @ replicate (j + i) url"
    by (simp add: check_with_retries_stops [OF k] trace_after_def i j replicate_add)
  then show ?thesis by blast
qed

lemma check_with_retries_printed:
  "printed (snd (check_with_retries e url retries d t m tr)) = printed tr"
proof (cases "retries < 0")
  case True
  then show ?thesis by (simp add: check_with_retries_negative)
next
  case False
  then have "0 \<le> retries" by simp
  from retry_stop_exists [OF this, of e url d t m tr] obtain k where k: "int k \<le> retries"
    "\<forall>i<k. \<not> ok (verdict_of e url d t m tr i) \<and> retryable (verdict_of e url d t m tr i)"
    "ok (verdict_of e url d t m tr k) \<or> \<not> retryable (verdict_of e url d t m tr k)
         \<or> int k = retries"
    by blast
  show ?thesis
    by (simp add: check_with_retries_stops [OF k] trace_after_def check_once_printed
        trace_before_printed)
qed

lemma report_invalid_eq:
  "report_invalid xs (b, tr) = (b + int (length xs), tr @ map (\<lambda>x. Print (parse_line x)) xs)"
  by (induction xs arbitrary: b tr) simp_all

lemma length_outcomes [simp]: "length (outcomes e a urls tr) = length urls"
  by (induction urls arbitrary: tr) (simp_all add: split_beta Let_def)

lemma check_urls_eq:
  "\<exists>tr'. check_urls e a urls (o_n, b, tr)
        = (o_n + int (length (filter (\<lambda>x. ok (fst x)) (outcomes e a urls tr))),
           b + int (length (filter (\<lambda>x. \<not> ok (fst x)) (outcomes e a urls tr))), tr')
      \<and> printed tr' = printed tr
           @ map (\<lambda>x. report_line (fst x) (fst (snd x)) (snd (snd x)))
               (zip urls (outcomes e a urls tr))
      \<and> (\<exists>R. requested tr' = requested tr @ R \<and> set R \<subseteq> set urls
              \<and> (sorted urls \<longrightarrow> sorted R))"
proof (induction urls arbitrary: o_n b tr)
  case Nil
  show ?case by simp
next
  case (Cons url rest)
  define run where "run = check_with_retries e url (arg_retries a) (arg_retry_delay a)
      (arg_timeout a) (arg_max_body_bytes a) tr"
  define tr1 where "tr1 = snd run @ [Print (report_line url (fst (fst run)) (snd (fst run)))]"
  have outs: "outcomes e a (url # rest) tr = fst run # outcomes e a rest tr1"
    by (simp add: run_def tr1_def split_beta Let_def)
  have step: "check_urls e a (url # rest) (o_n, b, tr)
      = check_urls e a rest (if ok (fst (fst run)) then o_n + 1 else o_n,
          if ok (fst (fst run)) then b else b + 1, tr1)"
    by (simp add: run_def tr1_def split_beta Let_def)
  obtain j where j: "requested (snd run) = requested tr @ replicate j url"
    unfolding run_def using check_with_retries_requested by blast
  have p1: "printed tr1 = printed tr @ [report_line url (fst (fst run)) (snd (fst run))]"
    by (simp add: tr1_def run_def check_with_retries_printed)
  have r1: "requested tr1 = requested tr @ replicate j url"
    by (simp add: tr1_def j)
  from Cons.IH [of "if ok (fst (fst run)) then o_n + 1 else o_n"
      "if ok (fst (fst run)) then b else b + 1" tr1]
  obtain tr' R where
    eq: "check_urls e a rest (if ok (fst (fst run)) then o_n + 1 else o_n,
          if ok (fst (fst run)) then b else b + 1, tr1)
        = ((if ok (fst (fst run)) then o_n + 1 else o_n)
             + int (length (filter (\<lambda>x. ok (fst x)) (outcomes e a rest tr1))),
           (if ok (fst (fst run)) then b else b + 1)
             + int (length (filter (\<lambda>x. \<not> ok (fst x)) (outcomes e a rest tr1))), tr')"
    and pr: "printed tr' = printed tr1
           @ map (\<lambda>x. report_line (fst x) (fst (snd x)) (snd (snd x)))
               (zip rest (outcomes e a rest tr1))"
    and rq: "requested tr' = requested tr1 @ R" "set R \<subseteq> set rest" "sorted rest \<longrightarrow> sorted R"
    by blast
  have srt: "sorted (url # rest) \<longrightarrow> sorted (replicate j url @ R)"
    using rq(2,3) by (auto simp add: sorted_append)
  have c1: "check_urls e a (url # rest) (o_n, b, tr)
        = (o_n + int (length (filter (\<lambda>x. ok (fst x)) (outcomes e a (url # rest) tr))),
           b + int (length (filter (\<lambda>x. \<not> ok (fst x)) (outcomes e a (url # rest) tr))), tr')"
    by (simp only: step eq outs) simp
  have c2: "printed tr' = printed tr
           @ map (\<lambda>x. report_line (fst x) (fst (snd x)) (snd (snd x)))
               (zip (url # rest) (outcomes e a (url # rest) tr))"
    by (simp only: pr p1 outs) simp
  have c3: "requested tr' = requested tr @ (replicate j url @ R)"
    by (simp add: rq(1) r1)
  have c4: "set (replicate j url @ R) \<subseteq> set (url # rest)"
    using rq(2) by auto
  from c1 c2 c3 c4 srt show ?case by blast
qed

lemma main_run:
  fixes e a data urls invalid
  assumes "load_unique_urls (urlparse e) (str_of e) data = Inr (urls, invalid)"
  defines "outs \<equiv> run_outcomes e a urls invalid"
  defines "ok_n \<equiv> int (length (filter (\<lambda>x. ok (fst x)) outs))"
    and "broken \<equiv> int (length invalid) + int (length (filter (\<lambda>x. \<not> ok (fst x)) outs))"
  shows "\<exists>tr2. main e a data
           = Inr (if broken \<noteq> 0 then 1 else 0,
                  tr2 @ [Print (summary_line (int (length urls) + int (length invalid))
                                  ok_n broken)])
        \<and> printed tr2 = map parse_line invalid
             @ map (\<lambda>x. report_line (fst x) (fst (snd x)) (snd (snd x))) (zip urls outs)
        \<and> sorted (requested tr2) \<and> set (requested tr2) \<subseteq> set urls"
proof -
  have srt: "sorted urls"
    using load_unique_urls_lists(2) [OF assms(1)] .
  from check_urls_eq [of e a urls 0 "int (length invalid)"
      "map (\<lambda>entry. Print (parse_line entry)) invalid"]
  obtain tr2 R where
    eq: "check_urls e a urls (0, int (length invalid),
            map (\<lambda>entry. Print (parse_line entry)) invalid) = (ok_n, broken, tr2)"
    and pr: "printed tr2 = map parse_line invalid
             @ map (\<lambda>x. report_line (fst x) (fst (snd x)) (snd (snd x))) (zip urls outs)"
    and rq: "requested tr2 = R" "set R \<subseteq> set urls" "sorted urls \<longrightarrow> sorted R"
    unfolding ok_n_def broken_def outs_def run_outcomes_def by auto
  have "main e a data
           = Inr (if broken \<noteq> 0 then 1 else 0,
                  tr2 @ [Print (summary_line (int (length urls) + int (length invalid))
                                  ok_n broken)])"
    by (simp add: main_def assms(1) report_invalid_eq eq Let_def)
  with pr rq srt show ?thesis by auto
qed

lemma main_loads:
  "main e a data = Inr (code, tr) \<Longrightarrow>
   \<exists>urls invalid. load_unique_urls (urlparse e) (str_of e) data = Inr (urls, invalid)"
  by (auto simp add: main_def split: sum.splits)

lemma Valid_props:
  "classify_entry up f rule raw = Valid u \<Longrightarrow>
   u \<noteq> [] \<and> (\<exists>s. raw = JStr s \<and> u = strip s)
   \<and> (\<exists>p. up u = Inr p \<and> scheme p \<in> {''http'', ''https''} \<and> netloc p \<noteq> [])"
  by (auto simp add: classify_entry_def Let_def split: json.splits sum.splits if_splits)

subsection \<open>Extraction: invalid entries\<close>

text \<open>
  C6 (as amended). In every run in which the dataset loads, every evidence entry that is not
  a string, is empty after trimming, has a URL scheme other than \<^verbatim>\<open>http\<close> or \<^verbatim>\<open>https\<close>, or has
  an empty network location (the \<^verbatim>\<open>netloc\<close> of \<^verbatim>\<open>urlparse\<close>: user information, host and port
  together) is recorded in \<^verbatim>\<open>invalid\<close> with the identifier of its rule, is not among the
  URLs to check, and is never requested: every request of the run goes to one of the
  valid URLs. In particular the entry \<^verbatim>\<open>ftp://example.com/x\<close>, whose scheme is \<^verbatim>\<open>ftp\<close>, is
  classified invalid and never requested.
\<close>

theorem invalid_entries_never_probed:
  assumes "load_unique_urls (urlparse e) (str_of e) data = Inr (urls, invalid)"
    and "main e a data = Inr (code, tr)"
    and "(rule, raw) \<in> set (entries_of data)"
  shows
    "((\<forall>s. raw \<noteq> JStr s) \<longrightarrow> non_string_entry (rule_id (str_of e) rule) \<in> set invalid)
     \<and> (\<forall>s. raw = JStr s \<and> strip s = [] \<longrightarrow>
           empty_entry (rule_id (str_of e) rule) \<in> set invalid
           \<and> strip s \<notin> set urls \<and> strip s \<notin> set (requested tr))
     \<and> (\<forall>s p. raw = JStr s \<and> strip s \<noteq> [] \<and> urlparse e (strip s) = Inr p
              \<and> (scheme p \<notin> {''http'', ''https''} \<or> netloc p = []) \<longrightarrow>
           invalid_url_entry (rule_id (str_of e) rule) (strip s) \<in> set invalid
           \<and> strip s \<notin> set urls \<and> strip s \<notin> set (requested tr))
     \<and> set (requested tr) \<subseteq> set urls
     \<and> (raw = JStr ''ftp://example.com/x''
        \<and> urlparse e ''ftp://example.com/x'' = Inr \<lparr>scheme = ''ftp'', netloc = ''example.com''\<rparr> \<longrightarrow>
           invalid_url_entry (rule_id (str_of e) rule) ''ftp://example.com/x'' \<in> set invalid
           \<and> ''ftp://example.com/x'' \<notin> set urls
           \<and> ''ftp://example.com/x'' \<notin> set (requested tr))"
proof -
  note lists = load_unique_urls_lists [OF assms(1)]
  from main_run [OF assms(1), of a] obtain tr2 c l where
    "main e a data = Inr (c, tr2 @ [Print l])" and "set (requested tr2) \<subseteq> set urls"
    by blast
  with assms(2) have rq: "set (requested tr) \<subseteq> set urls"
    by auto
  have inv: "\<And>d. classify_entry (urlparse e) (str_of e) rule raw = Invalid d \<Longrightarrow> d \<in> set invalid"
    using assms(3) by (force simp add: lists(4) diagnostics_def)
  have not_valid: "\<And>u. u \<in> set urls \<Longrightarrow>
      u \<noteq> [] \<and> (\<exists>p. urlparse e u = Inr p \<and> scheme p \<in> {''http'', ''https''} \<and> netloc p \<noteq> [])"
    using Valid_props by (fastforce simp add: lists(1) valid_urls_def)
  have a1: "(\<forall>s. raw \<noteq> JStr s) \<longrightarrow> non_string_entry (rule_id (str_of e) rule) \<in> set invalid"
    by (auto intro!: inv simp add: classify_entry_def split: json.splits)
  have a2: "\<forall>s. raw = JStr s \<and> strip s = [] \<longrightarrow>
           empty_entry (rule_id (str_of e) rule) \<in> set invalid
           \<and> strip s \<notin> set urls \<and> strip s \<notin> set (requested tr)"
    using not_valid rq by (auto intro!: inv simp add: classify_entry_def)
  have a3: "\<forall>s p. raw = JStr s \<and> strip s \<noteq> [] \<and> urlparse e (strip s) = Inr p
              \<and> (scheme p \<notin> {''http'', ''https''} \<or> netloc p = []) \<longrightarrow>
           invalid_url_entry (rule_id (str_of e) rule) (strip s) \<in> set invalid
           \<and> strip s \<notin> set urls \<and> strip s \<notin> set (requested tr)"
  proof (intro allI impI)
    fix s p
    assume h: "raw = JStr s \<and> strip s \<noteq> [] \<and> urlparse e (strip s) = Inr p
              \<and> (scheme p \<notin> {''http'', ''https''} \<or> netloc p = [])"
    then have "classify_entry (urlparse e) (str_of e) rule raw
        = Invalid (invalid_url_entry (rule_id (str_of e) rule) (strip s))"
      by (auto simp add: classify_entry_def Let_def)
    then have 1: "invalid_url_entry (rule_id (str_of e) rule) (strip s) \<in> set invalid"
      by (rule inv)
    have 2: "strip s \<notin> set urls"
      using not_valid [of "strip s"] h by auto
    with rq have 3: "strip s \<notin> set (requested tr)" by auto
    from 1 2 3 show "invalid_url_entry (rule_id (str_of e) rule) (strip s) \<in> set invalid
           \<and> strip s \<notin> set urls \<and> strip s \<notin> set (requested tr)" by simp
  qed
  have st: "strip ''ftp://example.com/x'' = ''ftp://example.com/x''"
    by code_simp
  have a5: "raw = JStr ''ftp://example.com/x''
        \<and> urlparse e ''ftp://example.com/x'' = Inr \<lparr>scheme = ''ftp'', netloc = ''example.com''\<rparr> \<longrightarrow>
           invalid_url_entry (rule_id (str_of e) rule) ''ftp://example.com/x'' \<in> set invalid
           \<and> ''ftp://example.com/x'' \<notin> set urls
           \<and> ''ftp://example.com/x'' \<notin> set (requested tr)"
    using a3 [rule_format, of "''ftp://example.com/x''"
        "\<lparr>scheme = ''ftp'', netloc = ''example.com''\<rparr>"]
    by (simp add: st)
  from a1 a2 a3 rq a5 show ?thesis by blast
qed

subsection \<open>The report\<close>





subsection \<open>A run on the example dataset\<close>

lemma load_demo:
  "load_unique_urls py_urlparse scalar_str demo_data
     = Inr ([''https://a.example/doc'', ''https://b.example/x''],
            [''R1: empty URL entry'',
             ''R1: invalid URL '' @ [CHR 0x27] @ ''ftp://example.com/x'' @ [CHR 0x27],
             ''R1: non-string URL entry''])"
  by code_simp

lemma load_port_only:
  "load_unique_urls py_urlparse scalar_str port_only_data = Inr ([''http://:80/x''], [])"
  by code_simp

lemma entries_demo:
  "entries_of demo_data =
     [(demo_rule1, JStr ''https://b.example/x''), (demo_rule1, JStr ''ftp://example.com/x''),
      (demo_rule1, JStr ''  ''), (demo_rule1, JNum 3), (demo_rule1, JStr ''ftp://example.com/x''),
      (demo_rule1, JStr '' https://a.example/doc ''),
      (demo_rule2, JStr ''https://a.example/doc''), (demo_rule2, JStr ''https://b.example/x'')]"
  by (simp add: entries_of_def dataset_rules_def demo_data_def rule_entries_def demo_rule1_def
      demo_rule2_def py_or_def)

lemma parse_examples:
  "py_urlparse ''ftp://example.com/x'' = Inr \<lparr>scheme = ''ftp'', netloc = ''example.com''\<rparr>"
  "py_urlparse ''http://:80/x'' = Inr \<lparr>scheme = ''http'', netloc = '':80''\<rparr>"
  "hostname \<lparr>scheme = ''http'', netloc = '':80''\<rparr> = None"
  by code_simp+

lemma demo_env_parts:
  "urlparse (demo_env net) = py_urlparse" "str_of (demo_env net) = scalar_str"
  "urlopen (demo_env net) = net"
  by (simp_all add: demo_env_def)

lemma check_once_plain:
  "check_once (demo_env plain_server) url t m tr
     = (\<lparr>status = Some 200, method = ''HEAD'', final_url = Some url,
         ok = True, detail = ''ok'', retryable = False\<rparr>,
        tr @ [Request ''HEAD'' url])"
  by (simp add: check_once_cases
      fetch_response [of _ _ _ _ _ _ 200 url "Some ''text/plain''" "[]"]
      demo_env_parts plain_server_def evaluate_probe_def is_html_examples)

lemma check_with_retries_once:
  assumes "0 \<le> retries"
    and "ok (fst (check_once e url t m tr)) \<or> \<not> retryable (fst (check_once e url t m tr))
         \<or> retries = 0"
  shows "check_with_retries e url retries d t m tr
           = ((fst (check_once e url t m tr), 1), snd (check_once e url t m tr))"
  using check_with_retries_stops [of 0 retries e url d t m tr] assms
  by (auto simp add: verdict_of_def trace_after_def)

lemma str_int_small:
  "str_int 0 = ''0''" "str_int 1 = ''1''" "str_int 2 = ''2''" "str_int 3 = ''3''"
  "str_int 5 = ''5''"
  by code_simp+

lemma main_demo: "main (demo_env plain_server) demo_args demo_data = Inr (1, demo_report)"
  by (simp add: main_def demo_env_parts load_demo demo_args_def check_with_retries_once
      check_once_plain report_line_def parse_line_def summary_line_def str_int_small
      str_int_examples demo_report_def)


lemma main_port_only:
  "main (demo_env (by_method timed_out timed_out)) no_retry_args port_only_data
     = Inr (1, [Request ''HEAD'' ''http://:80/x'', Request ''GET'' ''http://:80/x'',
                Print ''BROKEN [-] GET (fallback) http://:80/x (TimeoutError: timed out; attempts=1)'',
                Print ''Summary: checked=1 ok=0 broken=1''])"
  by (simp add: main_def demo_env_parts load_port_only no_retry_args_def check_with_retries_once
      check_once_timed_out report_line_def summary_line_def str_int_small)

lemma rule_id_demo: "rule_id scalar_str demo_rule1 = ''R1''"
  by (simp add: rule_id_def demo_rule1_def py_str_def)



theorem invalid_entries_never_probed_witness:
  "invalid_url_entry ''R1'' ''ftp://example.com/x''
     \<in> set [''R1: empty URL entry'',
             ''R1: invalid URL '' @ [CHR 0x27] @ ''ftp://example.com/x'' @ [CHR 0x27],
             ''R1: non-string URL entry'']
   \<and> ''ftp://example.com/x'' \<notin> set [''https://a.example/doc'', ''https://b.example/x'']
   \<and> ''ftp://example.com/x'' \<notin> set (requested demo_report)
   \<and> set (requested demo_report) \<subseteq> set [''https://a.example/doc'', ''https://b.example/x'']"
proof -
  have mem: "(demo_rule1, JStr ''ftp://example.com/x'') \<in> set (entries_of demo_data)"
    by (simp add: entries_demo)
  from invalid_entries_never_probed [where e = "demo_env plain_server" and a = demo_args
      and data = demo_data and rule = demo_rule1 and raw = "JStr ''ftp://example.com/x''",
      unfolded demo_env_parts, OF load_demo main_demo [unfolded demo_env_parts] mem]
  show ?thesis
    by (simp add: parse_examples rule_id_demo del: set_simps)
qed

text \<open>
  The entry \<^verbatim>\<open>http://:80/x\<close> has an empty host (its \<^verbatim>\<open>hostname\<close> is \<open>None\<close>) and a netloc that is
  not empty: it is a valid entry for \<^verbatim>\<open>load_unique_urls\<close>, and \<^verbatim>\<open>main\<close> requests it.
\<close>

theorem empty_host_counterexample:
  "py_urlparse ''http://:80/x'' = Inr \<lparr>scheme = ''http'', netloc = '':80''\<rparr>
   \<and> hostname \<lparr>scheme = ''http'', netloc = '':80''\<rparr> = None
   \<and> load_unique_urls py_urlparse scalar_str port_only_data = Inr ([''http://:80/x''], [])
   \<and> main (demo_env (by_method timed_out timed_out)) no_retry_args port_only_data
     = Inr (1, [Request ''HEAD'' ''http://:80/x'', Request ''GET'' ''http://:80/x'',
                Print ''BROKEN [-] GET (fallback) http://:80/x (TimeoutError: timed out; attempts=1)'',
                Print ''Summary: checked=1 ok=0 broken=1''])"
  using parse_examples load_port_only main_port_only by simp




subsection \<open>The matcher and the language of a pattern\<close>

lemma star_step:
  assumes "set us \<subseteq> A" and "concat us \<noteq> []"
  obtains u vs where "u \<in> A" "u \<noteq> []" "set vs \<subseteq> A" "concat us = u @ concat vs"
  using assms
proof (induction us arbitrary: thesis)
  case Nil
  then show ?case by simp
next
  case (Cons x xs)
  show ?case
  proof (cases "x = []")
    case True
    with Cons.prems have "set xs \<subseteq> A" "concat xs \<noteq> []" by auto
    from Cons.IH [OF _ this] obtain u vs where
      "u \<in> A" "u \<noteq> []" "set vs \<subseteq> A" "concat xs = u @ concat vs" by blast
    with True Cons.prems(1) show ?thesis by auto
  next
    case False
    with Cons.prems show ?thesis by auto
  qed
qed

lemma rmatch_Star_mem:
  "t \<in> set (rmatch (Star a) s) \<longleftrightarrow>
     t = s \<or> (\<exists>x \<in> set (rmatch a s). length x < length s \<and> t \<in> set (rmatch (Star a) x))"
  by (subst rmatch.simps) (auto simp del: rmatch.simps split: if_splits)

lemma rmatch_LazyStar_mem:
  "t \<in> set (rmatch (LazyStar a) s) \<longleftrightarrow>
     t = s \<or> (\<exists>x \<in> set (rmatch a s). length x < length s \<and> t \<in> set (rmatch (LazyStar a) x))"
  by (subst rmatch.simps) (auto simp del: rmatch.simps split: if_splits)

lemma concat_in_star: "set us \<subseteq> A \<Longrightarrow> concat us \<in> {concat vs | vs. set vs \<subseteq> A}"
  by blast

lemma star_lang_step:
  assumes IH1: "\<And>t. t \<in> set (rmatch a s) \<longleftrightarrow> (\<exists>q \<in> lang a. s = q @ t)"
    and IH2: "\<And>x t. x \<in> set (rmatch a s) \<Longrightarrow> length x < length s \<Longrightarrow>
                t \<in> R x \<longleftrightarrow> (\<exists>q \<in> {concat us | us. set us \<subseteq> lang a}. x = q @ t)"
    and mem: "\<And>t. t \<in> R s \<longleftrightarrow> t = s \<or> (\<exists>x \<in> set (rmatch a s). length x < length s \<and> t \<in> R x)"
  shows "t \<in> R s \<longleftrightarrow> (\<exists>q \<in> {concat us | us. set us \<subseteq> lang a}. s = q @ t)"
proof
  assume "t \<in> R s"
  then consider "t = s"
    | x where "x \<in> set (rmatch a s)" "length x < length s" "t \<in> R x"
    using mem by blast
  then show "\<exists>q \<in> {concat us | us. set us \<subseteq> lang a}. s = q @ t"
  proof cases
    case 1
    have "concat [] \<in> {concat us | us. set us \<subseteq> lang a}"
      by (rule concat_in_star) simp
    with 1 show ?thesis by (intro bexI [of _ "concat []"]) simp_all
  next
    case 2
    from 2(1) obtain q1 where q1: "q1 \<in> lang a" "s = q1 @ x" using IH1 by blast
    from 2 obtain q2 where q2: "q2 \<in> {concat us | us. set us \<subseteq> lang a}" "x = q2 @ t"
      using IH2 by blast
    from q2(1) obtain us where us: "q2 = concat us" "set us \<subseteq> lang a" by blast
    with q1 have "set (q1 # us) \<subseteq> lang a" by simp
    then have "concat (q1 # us) \<in> {concat us | us. set us \<subseteq> lang a}"
      by (rule concat_in_star)
    moreover have "s = concat (q1 # us) @ t" using q1 q2 us by simp
    ultimately show ?thesis by (intro bexI [of _ "concat (q1 # us)"])
  qed
next
  assume "\<exists>q \<in> {concat us | us. set us \<subseteq> lang a}. s = q @ t"
  then obtain us where us: "set us \<subseteq> lang a" "s = concat us @ t" by blast
  show "t \<in> R s"
  proof (cases "concat us = []")
    case True
    with us have "t = s" by simp
    then show ?thesis using mem by blast
  next
    case False
    from star_step [OF us(1) False] obtain u vs where
      uv: "u \<in> lang a" "u \<noteq> []" "set vs \<subseteq> lang a" "concat us = u @ concat vs" by blast
    define x where "x = concat vs @ t"
    have sx: "s = u @ x" by (simp add: us(2) uv(4) x_def)
    then have x1: "x \<in> set (rmatch a s)" using IH1 uv(1) by blast
    have x2: "length x < length s" using sx uv(2) by simp
    have "concat vs \<in> {concat us | us. set us \<subseteq> lang a}"
      using uv(3) by (rule concat_in_star)
    then have "t \<in> R x" using IH2 [OF x1 x2] x_def by blast
    with x1 x2 show ?thesis using mem by blast
  qed
qed

lemma rmatch_lang: "t \<in> set (rmatch r s) \<longleftrightarrow> (\<exists>q \<in> lang r. s = q @ t)"
proof (induction r s arbitrary: t rule: rmatch.induct)
  case (1 p s)
  then show ?case by (cases s) auto
next
  case (2 s)
  show ?case by simp (rule eq_commute)
next
  case (3 a b s)
  show ?case
  proof
    assume "t \<in> set (rmatch (Seq a b) s)"
    then obtain u where u: "u \<in> set (rmatch a s)" "t \<in> set (rmatch b u)" by auto
    from u(1) obtain q1 where q1: "q1 \<in> lang a" "s = q1 @ u" using 3(1) by blast
    from u obtain q2 where q2: "q2 \<in> lang b" "u = q2 @ t" using 3(2) by blast
    from q1 q2 have "q1 @ q2 \<in> lang (Seq a b)" "s = (q1 @ q2) @ t" by auto
    then show "\<exists>q \<in> lang (Seq a b). s = q @ t" by blast
  next
    assume "\<exists>q \<in> lang (Seq a b). s = q @ t"
    then obtain q1 q2 where q: "q1 \<in> lang a" "q2 \<in> lang b" "s = q1 @ q2 @ t" by auto
    then have u: "q2 @ t \<in> set (rmatch a s)" using 3(1) by blast
    with q have "t \<in> set (rmatch b (q2 @ t))" using 3(2) by blast
    with u show "t \<in> set (rmatch (Seq a b) s)" by auto
  qed
next
  case (4 a b s)
  have "t \<in> set (rmatch (Alt a b) s) \<longleftrightarrow> t \<in> set (rmatch a s) \<or> t \<in> set (rmatch b s)"
    by simp
  also have "\<dots> \<longleftrightarrow> (\<exists>q \<in> lang a. s = q @ t) \<or> (\<exists>q \<in> lang b. s = q @ t)"
    by (simp only: 4)
  also have "\<dots> \<longleftrightarrow> (\<exists>q \<in> lang (Alt a b). s = q @ t)"
    by auto
  finally show ?case .
next
  case (5 a s)
  have "t \<in> (\<lambda>x. set (rmatch (Star a) x)) s
      \<longleftrightarrow> (\<exists>q \<in> {concat us | us. set us \<subseteq> lang a}. s = q @ t)"
  proof (rule star_lang_step)
    show "\<And>t. t \<in> set (rmatch a s) \<longleftrightarrow> (\<exists>q \<in> lang a. s = q @ t)" by (rule 5(1))
    show "\<And>x t. x \<in> set (rmatch a s) \<Longrightarrow> length x < length s \<Longrightarrow>
            t \<in> set (rmatch (Star a) x) \<longleftrightarrow> (\<exists>q \<in> {concat us | us. set us \<subseteq> lang a}. x = q @ t)"
      using 5(2) by (simp del: rmatch.simps)
    show "\<And>t. t \<in> set (rmatch (Star a) s) \<longleftrightarrow>
            t = s \<or> (\<exists>x \<in> set (rmatch a s). length x < length s \<and> t \<in> set (rmatch (Star a) x))"
      by (rule rmatch_Star_mem)
  qed
  then show ?case by (simp del: rmatch.simps)
next
  case (6 a s)
  have "t \<in> (\<lambda>x. set (rmatch (LazyStar a) x)) s
      \<longleftrightarrow> (\<exists>q \<in> {concat us | us. set us \<subseteq> lang a}. s = q @ t)"
  proof (rule star_lang_step)
    show "\<And>t. t \<in> set (rmatch a s) \<longleftrightarrow> (\<exists>q \<in> lang a. s = q @ t)" by (rule 6(1))
    show "\<And>x t. x \<in> set (rmatch a s) \<Longrightarrow> length x < length s \<Longrightarrow>
            t \<in> set (rmatch (LazyStar a) x) \<longleftrightarrow> (\<exists>q \<in> {concat us | us. set us \<subseteq> lang a}. x = q @ t)"
      using 6(2) by (simp del: rmatch.simps)
    show "\<And>t. t \<in> set (rmatch (LazyStar a) s) \<longleftrightarrow>
            t = s \<or> (\<exists>x \<in> set (rmatch a s). length x < length s \<and> t \<in> set (rmatch (LazyStar a) x))"
      by (rule rmatch_LazyStar_mem)
  qed
  then show ?case by (simp del: rmatch.simps)
qed

lemma re_search_iff:
  "re_search r s \<noteq> None \<longleftrightarrow> (\<exists>pre suf. s = pre @ suf \<and> rmatch r suf \<noteq> [])"
proof (induction s)
  case Nil
  then show ?case by (auto split: list.splits)
next
  case (Cons c cs)
  show ?case
  proof (cases "rmatch r (c # cs)")
    case Nil
    have "(\<exists>pre suf. c # cs = pre @ suf \<and> rmatch r suf \<noteq> [])
        \<longleftrightarrow> (\<exists>pre suf. cs = pre @ suf \<and> rmatch r suf \<noteq> [])"
    proof
      assume "\<exists>pre suf. c # cs = pre @ suf \<and> rmatch r suf \<noteq> []"
      then obtain pre suf where ps: "c # cs = pre @ suf" "rmatch r suf \<noteq> []" by blast
      with Nil have "pre \<noteq> []" by auto
      with ps(1) have "cs = tl pre @ suf" by (cases pre) auto
      with ps(2) show "\<exists>pre suf. cs = pre @ suf \<and> rmatch r suf \<noteq> []" by blast
    next
      assume "\<exists>pre suf. cs = pre @ suf \<and> rmatch r suf \<noteq> []"
      then obtain pre suf where "cs = pre @ suf" "rmatch r suf \<noteq> []" by blast
      then have "c # cs = (c # pre) @ suf" "rmatch r suf \<noteq> []" by auto
      then show "\<exists>pre suf. c # cs = pre @ suf \<and> rmatch r suf \<noteq> []" by blast
    qed
    with Nil Cons show ?thesis by simp
  next
    case (Cons t ts)
    then have "c # cs = [] @ (c # cs)" "rmatch r (c # cs) \<noteq> []" by auto
    then have "\<exists>pre suf. c # cs = pre @ suf \<and> rmatch r suf \<noteq> []" by blast
    with Cons show ?thesis by simp
  qed
qed

lemma rmatch_nonempty_lang:
  "rmatch r suf \<noteq> [] \<longleftrightarrow> (\<exists>q post. suf = q @ post \<and> q \<in> lang r)"
proof
  assume "rmatch r suf \<noteq> []"
  then obtain t where "t \<in> set (rmatch r suf)"
    by (cases "rmatch r suf") auto
  then obtain q where "q \<in> lang r" "suf = q @ t"
    unfolding rmatch_lang by blast
  then show "\<exists>q post. suf = q @ post \<and> q \<in> lang r" by blast
next
  assume "\<exists>q post. suf = q @ post \<and> q \<in> lang r"
  then obtain q post where "q \<in> lang r" "suf = q @ post" by blast
  then have "post \<in> set (rmatch r suf)"
    unfolding rmatch_lang by blast
  then show "rmatch r suf \<noteq> []" by auto
qed

lemma re_search_lang:
  "re_search r s \<noteq> None \<longleftrightarrow> (\<exists>pre q post. s = pre @ q @ post \<and> q \<in> lang r)"
proof
  assume "re_search r s \<noteq> None"
  then have "\<exists>pre suf. s = pre @ suf \<and> rmatch r suf \<noteq> []"
    by (simp only: re_search_iff)
  then obtain pre suf where ps: "s = pre @ suf" "rmatch r suf \<noteq> []"
    by (elim exE conjE)
  from ps(2) have "\<exists>q post. suf = q @ post \<and> q \<in> lang r"
    by (simp only: rmatch_nonempty_lang)
  then obtain q post where qp: "suf = q @ post" "q \<in> lang r"
    by (elim exE conjE)
  from ps(1) qp have "s = pre @ q @ post \<and> q \<in> lang r" by simp
  then show "\<exists>pre q post. s = pre @ q @ post \<and> q \<in> lang r"
    by (intro exI)
next
  assume "\<exists>pre q post. s = pre @ q @ post \<and> q \<in> lang r"
  then obtain pre q post where pq: "s = pre @ q @ post" "q \<in> lang r"
    by (elim exE conjE)
  have "\<exists>q' post'. q @ post = q' @ post' \<and> q' \<in> lang r"
    using pq(2) by (intro exI [of _ q] exI [of _ post]) simp
  then have "rmatch r (q @ post) \<noteq> []"
    by (simp only: rmatch_nonempty_lang)
  with pq(1) have "s = pre @ (q @ post) \<and> rmatch r (q @ post) \<noteq> []" by simp
  then have "\<exists>pre suf. s = pre @ suf \<and> rmatch r suf \<noteq> []"
    by (intro exI)
  then show "re_search r s \<noteq> None"
    by (simp only: re_search_iff)
qed

end
